theory Spec2Isabelle
  imports Complex_Main
begin

section \<open>Circuit breaker (services/utils/exponential-backoff.js, circuitBreaker)\<close>

text \<open>
  The breaker keeps one mutable object \<open>localState\<close> with the fields \<open>state\<close>,
  \<open>failures\<close>, \<open>lastFailureTime\<close> and \<open>nextAttemptTime\<close>. Times are
  milliseconds since the epoch (\<open>Date.now()\<close>), modelled as \<open>int\<close>; the two time
  fields are \<open>null\<close> until set, modelled as \<open>None\<close>.

  The model is sequential: one \<open>execute\<close> call runs to completion before the next
  one starts. Under that reading the snapshot that \<open>persistState\<close> hands to
  \<open>saveStateFn\<close> in its microtask is the local state at the moment \<open>persistState\<close>
  was called. The \<open>timestamp\<close> field of the snapshot (a later \<open>Date.now()\<close>) and
  the \<open>onStateChange\<close> callback, which only logs, are left out.
\<close>

datatype circuit_state = CLOSED | OPEN | HALF_OPEN

record breaker_state =
  state :: circuit_state
  failures :: int
  lastFailureTime :: "int option"
  nextAttemptTime :: "int option"

record breaker_config =
  maxFailures :: int
  resetTimeout :: int
  persistent :: bool  \<comment> \<open>\<open>saveStateFn && stateKey\<close>\<close>

datatype 'e breaker_error =
    NoFunctionProvided
  | Upstream 'e
  | CircuitIsOpen int int
      \<comment> \<open>"Circuit breaker is OPEN. \<open>failures\<close> consecutive failures. Retry in \<open>waitTime\<close>s."\<close>
  | CircuitOpened int int "'e breaker_error"
      \<comment> \<open>"Circuit breaker opened after \<open>failures\<close> consecutive failures.
          Will retry in \<open>ceil(resetTimeout / 1000)\<close>s. Original error: ..."\<close>

record ('e, 'a) exec_out =
  outcome :: "'e breaker_error + 'a"
  st :: breaker_state
  writes :: "breaker_state list"       \<comment> \<open>snapshots handed to \<open>saveStateFn\<close>, in order\<close>
  transitions :: "circuit_state list"  \<comment> \<open>states entered by \<open>changeState\<close>, in order\<close>
  calls :: nat                         \<comment> \<open>invocations of the wrapped function\<close>

definition initialLocalState :: breaker_state where
  "initialLocalState =
     \<lparr>state = CLOSED, failures = 0, lastFailureTime = None, nextAttemptTime = None\<rparr>"

text \<open>JavaScript's numeric reading of a nullable number: \<open>null\<close> compares and subtracts as 0.\<close>

definition toNumber :: "int option \<Rightarrow> int" where
  "toNumber x = (case x of None \<Rightarrow> 0 | Some n \<Rightarrow> n)"

text \<open>\<open>Math.ceil(x / 1000)\<close> on integers.\<close>

definition ceilSeconds :: "int \<Rightarrow> int" where
  "ceilSeconds x = - ((- x) div 1000)"

definition persistState :: "breaker_config \<Rightarrow> breaker_state \<Rightarrow> breaker_state list" where
  "persistState cfg ls = (if persistent cfg then [ls] else [])"

definition changeState ::
  "breaker_config \<Rightarrow> circuit_state \<Rightarrow> breaker_state
     \<Rightarrow> breaker_state \<times> breaker_state list \<times> circuit_state list" where
  "changeState cfg newState ls =
     (if state ls \<noteq> newState
      then (let ls' = ls\<lparr>state := newState\<rparr> in (ls', persistState cfg ls', [newState]))
      else (ls, [], []))"

text \<open>
  \<open>executeFunction\<close>: the function given to the call (or the configured default) is
  invoked once; without any function the closure throws. The argument is the result the
  wrapped function produces when it is invoked, \<open>None\<close> when there is no function.
\<close>

definition executeFunction :: "('e + 'a) option \<Rightarrow> ('e breaker_error + 'a) \<times> nat" where
  "executeFunction fn =
     (case fn of
        None \<Rightarrow> (Inl NoFunctionProvided, 0)
      | Some (Inl e) \<Rightarrow> (Inl (Upstream e), 1)
      | Some (Inr v) \<Rightarrow> (Inr v, 1))"

definition execute ::
  "breaker_config \<Rightarrow> int \<Rightarrow> ('e + 'a) option \<Rightarrow> breaker_state \<Rightarrow> ('e, 'a) exec_out" where
  "execute cfg now fn ls =
     (if state ls = OPEN \<and> \<not> (toNumber (nextAttemptTime ls) \<le> now)
      then \<lparr>outcome = Inl (CircuitIsOpen (failures ls)
                              (ceilSeconds (toNumber (nextAttemptTime ls) - now))),
            st = ls, writes = [], transitions = [], calls = 0\<rparr>
      else
        (let (ls1, w1, t1) =
               (if state ls = OPEN then changeState cfg HALF_OPEN ls else (ls, [], []))
         in case executeFunction fn of
              (Inr v, n) \<Rightarrow>
                (let ls2 = ls1\<lparr>failures := 0, lastFailureTime := None,
                                nextAttemptTime := None\<rparr>;
                     (ls3, w3, t3) = changeState cfg CLOSED ls2
                 in \<lparr>outcome = Inr v, st = ls3, writes = w1 @ w3,
                      transitions = t1 @ t3, calls = n\<rparr>)
            | (Inl err, n) \<Rightarrow>
                (let ls2 = ls1\<lparr>failures := failures ls1 + 1, lastFailureTime := Some now\<rparr>
                 in if state ls2 = HALF_OPEN \<or> maxFailures cfg \<le> failures ls2
                    then
                      (let ls3 = ls2\<lparr>nextAttemptTime := Some (now + resetTimeout cfg)\<rparr>;
                           (ls4, w4, t4) = changeState cfg OPEN ls3
                       in \<lparr>outcome = Inl (CircuitOpened (failures ls4)
                                              (ceilSeconds (resetTimeout cfg)) err),
                            st = ls4, writes = w1 @ w4, transitions = t1 @ t4, calls = n\<rparr>)
                    else \<lparr>outcome = Inl err, st = ls2, writes = w1 @ persistState cfg ls2,
                          transitions = t1, calls = n\<rparr>)))"

text \<open>\<open>execute.getState\<close>, the read the retry layer uses.\<close>

definition getState :: "breaker_state \<Rightarrow> circuit_state" where
  "getState ls = state ls"

text \<open>
  A breaker driven by a sequence of calls, one after the other: each call is the time
  \<open>Date.now()\<close> returns in it and the result of the wrapped function.
\<close>

record run_out =
  final :: breaker_state
  saved :: "breaker_state list"
  visited :: "circuit_state list"
  invoked :: nat

fun run :: "breaker_config \<Rightarrow> (int \<times> ('e + 'a) option) list \<Rightarrow> breaker_state \<Rightarrow> run_out" where
  "run cfg [] ls = \<lparr>final = ls, saved = [], visited = [], invoked = 0\<rparr>"
| "run cfg ((now, fn) # rest) ls =
     (let out = execute cfg now fn ls; r = run cfg rest (st out)
      in \<lparr>final = final r, saved = writes out @ saved r,
           visited = transitions out @ visited r, invoked = calls out + invoked r\<rparr>)"

text \<open>A failing call: the time of the call and the error the wrapped function throws.\<close>

definition failing :: "(int \<times> 'e) \<Rightarrow> int \<times> ('e + 'a) option" where
  "failing p = (fst p, Some (Inl (snd p)))"

text \<open>
  The snapshots written by consecutive failures that leave the circuit \<open>CLOSED\<close>,
  starting from a failure count \<open>f\<close>: one per failure, at the times given.
\<close>

fun failureSnapshots :: "int \<Rightarrow> int list \<Rightarrow> breaker_state list" where
  "failureSnapshots f [] = []"
| "failureSnapshots f (t # ts) =
     \<lparr>state = CLOSED, failures = f + 1, lastFailureTime = Some t, nextAttemptTime = None\<rparr>
       # failureSnapshots (f + 1) ts"

subsection \<open>The persisted rows and the health snapshot (social-media-service.js)\<close>

text \<open>
  Table \<open>circuit_breaker_states\<close>: one row per \<open>circuit_name\<close> (unique), holding
  \<open>state_data\<close>. \<open>saveStateFn\<close> is the upsert
  \<open>INSERT ... ON CONFLICT (circuit_name) DO UPDATE SET state_data = ...\<close>.
\<close>

type_synonym breaker_table = "(string \<times> breaker_state) list"

fun saveStateFn :: "string \<Rightarrow> breaker_state \<Rightarrow> breaker_table \<Rightarrow> breaker_table" where
  "saveStateFn key sd [] = [(key, sd)]"
| "saveStateFn key sd ((k, v) # rows) =
     (if k = key then (k, sd) # rows else (k, v) # saveStateFn key sd rows)"

record circuit_health =
  h_platform :: string
  h_state :: circuit_state
  h_failures :: int
  h_lastFailureTime :: "int option"
  h_nextAttemptTime :: "int option"
  h_healthy :: bool

record health_report =
  h_status :: string
  h_circuits :: "circuit_health list"

definition findHealth :: "breaker_table \<Rightarrow> health_report" where
  "findHealth states =
     (let health = map (\<lambda>(circuit_name, state_data).
            \<lparr>h_platform = circuit_name, h_state = state state_data,
             h_failures = failures state_data,
             h_lastFailureTime = lastFailureTime state_data,
             h_nextAttemptTime = nextAttemptTime state_data,
             h_healthy = (state state_data = CLOSED)\<rparr>) states;
          allHealthy = list_all h_healthy health
      in \<lparr>h_status = (if allHealthy then ''healthy'' else ''degraded''), h_circuits = health\<rparr>)"

section \<open>Retry engine (services/utils/exponential-backoff.js, exponentialBackoff)\<close>

text \<open>
  \<open>maxRetries\<close> is a count. The delays are milliseconds, whole numbers far below
  \<open>2 ^ 53\<close>, so that the sums and products of the code are exact.
\<close>

record retry_config =
  maxRetries :: nat
  initialDelay :: int
  maxDelay :: int
  factor :: int

text \<open>
  The options object a caller passes; a key that is absent or \<open>undefined\<close> is \<open>None\<close>
  and takes the default of the parameter list.
\<close>

record retry_options =
  o_maxRetries :: "nat option"
  o_initialDelay :: "int option"
  o_maxDelay :: "int option"
  o_factor :: "int option"

definition noOptions :: retry_options where
  "noOptions = \<lparr>o_maxRetries = None, o_initialDelay = None, o_maxDelay = None, o_factor = None\<rparr>"

text \<open>The parameter list of \<open>exponentialBackoff\<close> with its defaults.\<close>

definition exponentialBackoff_config :: "retry_options \<Rightarrow> retry_config" where
  "exponentialBackoff_config options =
     \<lparr>maxRetries = (case o_maxRetries options of None \<Rightarrow> 5 | Some n \<Rightarrow> n),
      initialDelay = (case o_initialDelay options of None \<Rightarrow> 1000 | Some n \<Rightarrow> n),
      maxDelay = (case o_maxDelay options of None \<Rightarrow> 10000 | Some n \<Rightarrow> n),
      factor = (case o_factor options of None \<Rightarrow> 2 | Some n \<Rightarrow> n)\<rparr>"

text \<open>
  \<open>Math.ceil(Math.random() * 1000)\<close>. The argument of \<open>jitter\<close> is the product
  \<open>Math.random() * 1000\<close> as the machine computes it, a floating-point number from 0
  up to, but not including, 1000; the environment supplies it for every attempt.
  \<open>Math.ceil\<close> of it is exact. How \<open>Math.random()\<close> is distributed is for the
  environment.
\<close>

definition jitter :: "real \<Rightarrow> int" where
  "jitter product = \<lceil>product\<rceil>"

definition waitTime :: "retry_config \<Rightarrow> nat \<Rightarrow> real \<Rightarrow> int" where
  "waitTime cfg attempt product =
     (let exponentialDelay = initialDelay cfg * factor cfg ^ attempt
      in min (exponentialDelay + jitter product) (maxDelay cfg))"

text \<open>
  What one call of the retrying function did: what it returned or threw (\<open>None\<close> when
  the loop ends without either, where JavaScript returns \<open>undefined\<close>), the environment
  the operation left behind, how often the operation was executed, and the sleeps in order.
\<close>

record ('e, 'a, 's) retry_out =
  answer :: "('e + 'a) option"
  env :: 's
  attempts :: nat
  sleeps :: "int list"

text \<open>
  The loop \<open>for (let attempt = 0; attempt <= maxRetries; attempt++)\<close>. The operation
  \<open>executeFunction\<close> and the predicate \<open>shouldRetry\<close> are closures over mutable
  surroundings (for the Social Gateway, the breaker), passed along as \<open>'s\<close>:
  \<open>operation attempt s\<close> is what the operation does when it is executed in pass
  \<open>attempt\<close> of the loop, and \<open>random attempt\<close> is \<open>Math.random() * 1000\<close> in
  that pass.
\<close>

function retryFrom ::
  "retry_config \<Rightarrow> ('s \<Rightarrow> 'e \<Rightarrow> bool) \<Rightarrow> (nat \<Rightarrow> 's \<Rightarrow> ('e + 'a) \<times> 's) \<Rightarrow> (nat \<Rightarrow> real)
     \<Rightarrow> nat \<Rightarrow> 's \<Rightarrow> ('e, 'a, 's) retry_out" where
  "retryFrom cfg shouldRetry operation random attempt s =
     (if attempt \<le> maxRetries cfg
      then
        (case operation attempt s of
           (Inr v, s') \<Rightarrow> \<lparr>answer = Some (Inr v), env = s', attempts = 1, sleeps = []\<rparr>
         | (Inl error, s') \<Rightarrow>
             if attempt = maxRetries cfg \<or> \<not> shouldRetry s' error
             then \<lparr>answer = Some (Inl error), env = s', attempts = 1, sleeps = []\<rparr>
             else
               (let r = retryFrom cfg shouldRetry operation random (attempt + 1) s'
                in r\<lparr>attempts := attempts r + 1,
                     sleeps := waitTime cfg attempt (random attempt) # sleeps r\<rparr>))
      else \<lparr>answer = None, env = s, attempts = 0, sleeps = []\<rparr>)"
  by pat_completeness auto
termination
  by (relation "measure (\<lambda>(cfg, shouldRetry, operation, random, attempt, s).
        maxRetries cfg + 1 - attempt)") auto

declare retryFrom.simps [simp del]

definition exponentialBackoff ::
  "retry_config \<Rightarrow> ('s \<Rightarrow> 'e \<Rightarrow> bool) \<Rightarrow> (nat \<Rightarrow> 's \<Rightarrow> ('e + 'a) \<times> 's) \<Rightarrow> (nat \<Rightarrow> real)
     \<Rightarrow> 's \<Rightarrow> ('e, 'a, 's) retry_out" where
  "exponentialBackoff cfg shouldRetry operation random s =
     retryFrom cfg shouldRetry operation random 0 s"

section \<open>The Social Gateway's handler (social-media-service.js, buildHttpHandler)\<close>

text \<open>
  An error thrown by the HTTP client either carries a response with a status or, for a
  network failure, none.
\<close>

datatype http_error = NetworkError | HttpStatus int

text \<open>
  \<open>shouldRetryHttpError\<close> (services/http/with-retry.js). The errors the breaker makes
  itself are plain \<open>Error\<close> objects without a \<open>response\<close>.
\<close>

definition shouldRetryHttpError :: "http_error breaker_error \<Rightarrow> bool" where
  "shouldRetryHttpError error =
     (case error of
        Upstream (HttpStatus status) \<Rightarrow> status \<ge> 500 \<or> status = 429
      | _ \<Rightarrow> True)"

text \<open>
  \<open>withRetry\<close> (services/http/with-retry.js). The options of the decorator have
  defaults of their own, and every method of the decorated client runs the request under
  \<open>exponentialBackoff\<close> with all four values handed over, so that the defaults of
  \<open>exponentialBackoff\<close> play no part there. \<open>request attempt s\<close> is what
  \<open>httpClient[method](url, ...args)\<close> does in pass \<open>attempt\<close>; an error of the HTTP
  client is \<open>Upstream e\<close>.
\<close>

definition withRetry_config :: "retry_options \<Rightarrow> retry_config" where
  "withRetry_config options =
     \<lparr>maxRetries = (case o_maxRetries options of None \<Rightarrow> 3 | Some n \<Rightarrow> n),
      initialDelay = (case o_initialDelay options of None \<Rightarrow> 1000 | Some n \<Rightarrow> n),
      maxDelay = (case o_maxDelay options of None \<Rightarrow> 10000 | Some n \<Rightarrow> n),
      factor = (case o_factor options of None \<Rightarrow> 2 | Some n \<Rightarrow> n)\<rparr>"

definition withRetry ::
  "retry_options \<Rightarrow> (http_error breaker_error \<Rightarrow> bool) option
     \<Rightarrow> (nat \<Rightarrow> 's \<Rightarrow> (http_error breaker_error + 'a) \<times> 's) \<Rightarrow> (nat \<Rightarrow> real)
     \<Rightarrow> 's \<Rightarrow> (http_error breaker_error, 'a, 's) retry_out" where
  "withRetry options shouldRetryOption request random s =
     (let c = withRetry_config options;
          shouldRetry = (case shouldRetryOption of None \<Rightarrow> shouldRetryHttpError | Some f \<Rightarrow> f)
      in exponentialBackoff
           (exponentialBackoff_config
              \<lparr>o_maxRetries = Some (maxRetries c), o_initialDelay = Some (initialDelay c),
               o_maxDelay = Some (maxDelay c), o_factor = Some (factor c)\<rparr>)
           (\<lambda>s error. shouldRetry error) request random s)"

definition handler_breaker_config :: breaker_config where
  "handler_breaker_config = \<lparr>maxFailures = 5, resetTimeout = 60000, persistent = True\<rparr>"

definition handler_retry_config :: retry_config where
  "handler_retry_config =
     \<lparr>maxRetries = 3, initialDelay = 1000, maxDelay = 10000, factor = 2\<rparr>"

text \<open>
  What the handler's closures share: the breaker's local state, and, for the account,
  the snapshots written so far and the number of times \<open>requestFn\<close> was invoked.
\<close>

record handler_env =
  breaker :: breaker_state
  persisted :: "breaker_state list"
  requests :: nat

definition shouldRetry :: "handler_env \<Rightarrow> http_error breaker_error \<Rightarrow> bool" where
  "shouldRetry e error =
     (let currentState = getState (breaker e)
      in if currentState = OPEN \<or> currentState = HALF_OPEN then False
         else shouldRetryHttpError error)"

text \<open>
  \<open>async () => await breaker(requestFn)\<close>: in pass \<open>attempt\<close> the clock reads
  \<open>clock attempt\<close> and \<open>requestFn\<close>, if the breaker invokes it, produces
  \<open>requestFn attempt\<close>.
\<close>

definition breakerCall ::
  "(nat \<Rightarrow> int) \<Rightarrow> (nat \<Rightarrow> http_error + 'a) \<Rightarrow> nat \<Rightarrow> handler_env
     \<Rightarrow> (http_error breaker_error + 'a) \<times> handler_env" where
  "breakerCall clock requestFn attempt e =
     (let out = execute handler_breaker_config (clock attempt) (Some (requestFn attempt))
                  (breaker e)
      in (outcome out,
          \<lparr>breaker = st out, persisted = persisted e @ writes out,
           requests = requests e + calls out\<rparr>))"

definition httpHandler ::
  "(nat \<Rightarrow> int) \<Rightarrow> (nat \<Rightarrow> http_error + 'a) \<Rightarrow> (nat \<Rightarrow> real) \<Rightarrow> handler_env
     \<Rightarrow> (http_error breaker_error, 'a, handler_env) retry_out" where
  "httpHandler clock requestFn random e =
     exponentialBackoff handler_retry_config shouldRetry (breakerCall clock requestFn) random e"

section \<open>The store: mentions, tasks and audits\<close>

text \<open>
  Modelled from the spec: the enumerations \<open>mentionTypes\<close>, \<open>mentionStates\<close> and
  \<open>taskTypes\<close> of the module \<open>enums\<close>, which the source imports and the data model
  of the specification lists.
\<close>

datatype mention_type = COMMENT | MESSAGE | REPLY

datatype mention_state = ASSIGNMENT | REPLY_ATTEMPT | REPLIED | PROVIDER_ERROR

datatype task_code = FETCH_COMMENTS | FETCH_MESSAGES | REPLY_MENTION | REPLY_MENTION_IGNORED

text \<open>Everything the modelled functions throw.\<close>

datatype error =
    InvalidMentionId | InvalidContent | ContentExceedsMaximumLength | InvalidUser
  | MentionNotFound
  | NoAdapterRegistered mention_type
  | UniqueViolation string   \<comment> \<open>the name of the unique index\<close>
  | ValueTooLong nat         \<comment> \<open>"value too long for type character varying(n)"\<close>
  | SqlSyntaxError
  | DatabaseError
  | TypeError
  | SyntaxError
  | RequestFailed "http_error breaker_error"

text \<open>A comment as the aggregator returns it, tagged with \<open>apiPostId\<close> by the gateway.\<close>

record comment =
  commentId :: "string option"
  comment_text :: "string option"      \<comment> \<open>field \<open>comment\<close>\<close>
  comment_platform :: "string option"  \<comment> \<open>field \<open>platform\<close>\<close>
  apiPostId :: "string option"

text \<open>
  The body of the aggregator's answer to a reply: \<open>response.data\<close>. \<open>status\<close> and
  \<open>success\<close> are the two fields the code reads; \<open>platforms\<close> holds the entries
  \<open>response.data[platform]\<close>.
\<close>

record reply_data =
  rd_comment :: string
  rd_commentId :: string

record reply_response =
  status :: "string option"
  success :: bool
  platforms :: "(string \<times> reply_data) list"

datatype mention_payload =
    NoPayload
  | CommentPayload comment int          \<comment> \<open>\<open>{socialMediaPayload: c, taskId}\<close>\<close>
  | ReplyPayload reply_response         \<comment> \<open>\<open>{socialMediaPayload: result}\<close>\<close>

text \<open>
  A row of \<open>mentions\<close>. The columns \<open>id\<close>, \<open>type\<close>, \<open>state\<close> and \<open>data\<close> are
  \<open>mention_id\<close>, \<open>mention_type\<close>, \<open>mention_state\<close> and \<open>mention_data\<close> here; the
  timestamps and \<open>disposition\<close> play no part in what follows and are left out.
\<close>

record mention =
  mention_id :: int
  content :: string
  socialMediaPlatformRef :: string
  socialMediaAPIPostRef :: string
  platform :: string
  mention_type :: mention_type
  mention_state :: "mention_state option"
  userId :: "int option"
  mentionId :: "int option"
  mention_data :: mention_payload

record post =
  post_id :: string                       \<comment> \<open>field \<open>id\<close>\<close>
  postIds :: "(string \<times> string) list"     \<comment> \<open>platform and platform-specific id\<close>

text \<open>
  An element of \<open>data.posts\<close> of a task as JSON holds it: a whole post object, as
  \<open>fetchAndSyncMentions\<close> stores it when it creates the task, or a post id, as
  \<open>processFetchTask\<close> leaves it when the task is finished.
\<close>

datatype json_post = PostObject post | PostIdOnly string | JsonNull

record reqUser =
  user_id :: "int option"    \<comment> \<open>field \<open>id\<close>\<close>
  email :: "string option"

text \<open>
  The JSON column \<open>data\<close> of a task; a key that is absent is \<open>None\<close>.
  \<open>d_reqUser\<close> is the object that \<open>JSON.stringify\<close> wrote and \<open>JSON.parse\<close> reads
  back.
\<close>

record task_data =
  d_mentionId :: "int option"
  d_content :: "string option"
  d_reqUser :: "reqUser option"
  d_posts :: "json_post list option"
  d_comments :: "comment list option"
  d_result :: "reply_response option"
  d_isIgnored :: bool
  d_error :: "error option"

definition emptyData :: task_data where
  "emptyData =
     \<lparr>d_mentionId = None, d_content = None, d_reqUser = None, d_posts = None,
      d_comments = None, d_result = None, d_isIgnored = False, d_error = None\<rparr>"

record task =
  task_id :: int
  code :: task_code
  task_data :: task_data
  startedAt :: "int option"
  finishedAt :: "int option"
  createdBy :: "string option"
  createdAt :: int

record audit =
  event :: mention_state
  audit_mentionId :: int
  audit_taskId :: int
  audit_createdBy :: "string option"

record db =
  mentions :: "mention list"
  tasks :: "task list"
  audits :: "audit list"
  mentions_id_seq :: int
  tasks_id_seq :: int

definition emptyDb :: db where
  "emptyDb = \<lparr>mentions = [], tasks = [], audits = [], mentions_id_seq = 1, tasks_id_seq = 1\<rparr>"

subsection \<open>Mentions\<close>

definition findByPk :: "int option \<Rightarrow> db \<Rightarrow> mention option" where
  "findByPk pk d =
     (case pk of None \<Rightarrow> None | Some i \<Rightarrow> find (\<lambda>m. mention_id m = i) (mentions d))"

text \<open>\<open>mention.update({state})\<close>: the row with the id of the instance gets the state.\<close>

definition updateState :: "int \<Rightarrow> mention_state \<Rightarrow> db \<Rightarrow> db" where
  "updateState i s d =
     d\<lparr>mentions := map (\<lambda>m. if mention_id m = i then m\<lparr>mention_state := Some s\<rparr> else m)
                       (mentions d)\<rparr>"

text \<open>The column \<open>socialMediaPlatformRef\<close> of the table, row by row.\<close>

definition platformRefs :: "db \<Rightarrow> string list" where
  "platformRefs d = map socialMediaPlatformRef (mentions d)"

text \<open>
  The columns \<open>socialMediaPlatformRef\<close> and \<open>socialMediaAPIPostRef\<close> of the
  migration of \<open>mentions\<close> are \<open>VARCHAR(255)\<close> and \<open>platform\<close> is
  \<open>VARCHAR(50)\<close>; \<open>content\<close> is \<open>TEXT\<close>, and the values of \<open>type\<close> and
  \<open>state\<close> are the short names of the enumerations. A string stored in a column
  \<open>VARCHAR(n)\<close> that is longer than \<open>n\<close> is an error, unless what exceeds \<open>n\<close>
  is spaces only, which are then cut off. The strings of the model are those that
  PostgreSQL can hold: the character with code 0 is not considered.
\<close>

definition fitColumn :: "nat \<Rightarrow> string \<Rightarrow> error + string" where
  "fitColumn n s =
     (if length s \<le> n then Inr s
      else if list_all (\<lambda>c. c = CHR '' '') (drop n s) then Inr (take n s)
      else Inl (ValueTooLong n))"

definition fitRow :: "mention \<Rightarrow> error + mention" where
  "fitRow r =
     (case fitColumn 255 (socialMediaPlatformRef r) of
        Inl e \<Rightarrow> Inl e
      | Inr ref \<Rightarrow>
          (case fitColumn 255 (socialMediaAPIPostRef r) of
             Inl e \<Rightarrow> Inl e
           | Inr postRef \<Rightarrow>
               (case fitColumn 50 (platform r) of
                  Inl e \<Rightarrow> Inl e
                | Inr p \<Rightarrow>
                    Inr (r\<lparr>socialMediaPlatformRef := ref, socialMediaAPIPostRef := postRef,
                           platform := p\<rparr>))))"

text \<open>A row that fits its columns as it is.\<close>

definition fitsColumns :: "mention \<Rightarrow> bool" where
  "fitsColumns r \<longleftrightarrow>
     length (socialMediaPlatformRef r) \<le> 255 \<and> length (socialMediaAPIPostRef r) \<le> 255 \<and>
     length (platform r) \<le> 50"

fun fitRows :: "mention list \<Rightarrow> error + mention list" where
  "fitRows [] = Inr []"
| "fitRows (r # rs) =
     (case fitRow r of
        Inl e \<Rightarrow> Inl e
      | Inr r' \<Rightarrow> (case fitRows rs of Inl e \<Rightarrow> Inl e | Inr rs' \<Rightarrow> Inr (r' # rs')))"

text \<open>
  \<open>Mention.create\<close>: a plain insert of one row. A value too long for its column is
  refused when the statement is prepared, before the row draws its id. Otherwise the
  row draws its id from the identity sequence, and the id is spent also when the unique
  index \<open>mentions_socialmediaplatformref_unq\<close> then rejects the row, for a platform
  ref that is already there. The result is the error, if any, and the store.
\<close>

definition Mention_create :: "mention \<Rightarrow> db \<Rightarrow> error option \<times> db" where
  "Mention_create values d =
     (case fitRow values of
        Inl e \<Rightarrow> (Some e, d)
      | Inr row \<Rightarrow>
          (let drawn = d\<lparr>mentions_id_seq := mentions_id_seq d + 1\<rparr>
           in if socialMediaPlatformRef row \<in> set (platformRefs d)
              then (Some (UniqueViolation ''mentions_socialmediaplatformref_unq''), drawn)
              else (None,
                    drawn\<lparr>mentions := mentions d @ [row\<lparr>mention_id := mentions_id_seq d\<rparr>]\<rparr>)))"

subsection \<open>Ingestion (base-mention-adapter.js, mention-comment-adapter.js)\<close>

text \<open>One tuple of the \<open>VALUES\<close> list, before \<open>|| ''\<close> is applied to its fields.\<close>

record mention_values =
  v_content :: "string option"
  v_socialMediaPlatformRef :: "string option"
  v_socialMediaAPIPostRef :: "string option"
  v_platform :: "string option"
  v_type :: mention_type
  v_data :: mention_payload

definition transformCommentsToMentions :: "comment list \<Rightarrow> int \<Rightarrow> mention_values list" where
  "transformCommentsToMentions comments taskId =
     map (\<lambda>c. \<lparr>v_content = comment_text c, v_socialMediaPlatformRef = commentId c,
                v_socialMediaAPIPostRef = apiPostId c, v_platform = comment_platform c,
                v_type = COMMENT, v_data = CommentPayload c taskId\<rparr>) comments"

text \<open>\<open>x || ''\<close> on a string that may be undefined.\<close>

definition orEmpty :: "string option \<Rightarrow> string" where
  "orEmpty x = (case x of None \<Rightarrow> [] | Some s \<Rightarrow> s)"

definition toRow :: "mention_values \<Rightarrow> mention" where
  "toRow v =
     \<lparr>mention_id = 0, content = orEmpty (v_content v),
      socialMediaPlatformRef = orEmpty (v_socialMediaPlatformRef v),
      socialMediaAPIPostRef = orEmpty (v_socialMediaAPIPostRef v),
      platform = orEmpty (v_platform v), mention_type = v_type v,
      mention_state = None, userId = None, mentionId = None, mention_data = v_data v\<rparr>"

text \<open>
  \<open>INSERT ... ON CONFLICT DO NOTHING\<close> of one row: a row whose platform ref is in the
  table by now is skipped without an error.
\<close>

definition insertOrSkip :: "mention \<Rightarrow> db \<Rightarrow> db" where
  "insertOrSkip row d = snd (Mention_create row d)"

text \<open>
  Of several tuples of one statement with the same platform ref one is inserted and the
  others are skipped as conflicts. Which one is for the executor to decide, as is the
  order in which the tuples reach the table; the plan that PostgreSQL chooses for a short
  list on a small table lets the later one in. The model keeps the last tuple for every
  platform ref, in the order of the list.
\<close>

fun lastPerRef :: "mention list \<Rightarrow> mention list" where
  "lastPerRef [] = []"
| "lastPerRef (r # rs) =
     (if socialMediaPlatformRef r \<in> set (map socialMediaPlatformRef rs)
      then lastPerRef rs else r # lastPerRef rs)"

text \<open>
  \<open>_createMentions\<close>. The statement selects from the \<open>VALUES\<close> list the tuples whose
  platform ref is not in \<open>mentions\<close> as the statement finds it, and inserts them, each
  with \<open>ON CONFLICT DO NOTHING\<close>. A selected tuple with a value too long for its
  column fails the whole statement, which then inserts nothing; the model checks the
  tuples that are selected. Every selected tuple draws an id. An empty \<open>VALUES\<close> list is not SQL; the callers check the length
  before they call. Where the statement fails the result is the error alone: the store
  is as it was, but for the ids drawn.
\<close>

definition createMentions :: "mention_values list \<Rightarrow> db \<Rightarrow> error + db" where
  "createMentions ms d =
     (if ms = [] then Inl SqlSyntaxError
      else
        (let mentions_to_insert = map toRow ms;
             selected = filter (\<lambda>r. socialMediaPlatformRef r \<notin> set (platformRefs d))
                          mentions_to_insert
         in case fitRows selected of
              Inl e \<Rightarrow> Inl e
            | Inr rows \<Rightarrow>
                Inr ((fold insertOrSkip (lastPerRef rows) d)
                       \<lparr>mentions_id_seq := mentions_id_seq d + int (length rows)\<rparr>)))"

text \<open>
  The body of \<open>promiseFunc\<close> in \<open>processFetchTask\<close> once the comments of a post have
  arrived: the upsert of one batch of comments.
\<close>

definition ingestComments :: "int \<Rightarrow> comment list \<Rightarrow> db \<Rightarrow> error + db" where
  "ingestComments taskId comments d =
     (if length comments > 0
      then (let ms = transformCommentsToMentions comments taskId
            in if length ms > 0 then createMentions ms d else Inr d)
      else Inr d)"

text \<open>The platform refs a list of comments is stored under.\<close>

definition commentRefs :: "comment list \<Rightarrow> string set" where
  "commentRefs comments = set (map (\<lambda>c. orEmpty (commentId c)) comments)"

text \<open>The same list of comments ingested once for each of the given fetch tasks.\<close>

fun ingestRepeatedly :: "int list \<Rightarrow> comment list \<Rightarrow> db \<Rightarrow> error + db" where
  "ingestRepeatedly [] comments d = Inr d"
| "ingestRepeatedly (taskId # rest) comments d =
     (case ingestComments taskId comments d of
        Inl e \<Rightarrow> Inl e
      | Inr d' \<Rightarrow> ingestRepeatedly rest comments d')"

subsection \<open>Tasks\<close>

text \<open>
  The two partial unique indexes of the migration of \<open>tasks\<close>, both
  \<open>WHERE code = 'REPLY_MENTION'\<close>: on \<open>(code, data->>'mentionId')\<close> and on
  \<open>(code, data->>'mentionId', data->>'content')\<close>. A null never conflicts.
\<close>

definition violates_mentionid_idx :: "task list \<Rightarrow> task_code \<Rightarrow> task_data \<Rightarrow> bool" where
  "violates_mentionid_idx ts c dat =
     (c = REPLY_MENTION \<and> d_mentionId dat \<noteq> None \<and>
      list_ex (\<lambda>t. code t = REPLY_MENTION \<and> d_mentionId (task_data t) = d_mentionId dat) ts)"

definition violates_mentionid_content_idx :: "task list \<Rightarrow> task_code \<Rightarrow> task_data \<Rightarrow> bool" where
  "violates_mentionid_content_idx ts c dat =
     (c = REPLY_MENTION \<and> d_mentionId dat \<noteq> None \<and> d_content dat \<noteq> None \<and>
      list_ex (\<lambda>t. code t = REPLY_MENTION \<and> d_mentionId (task_data t) = d_mentionId dat \<and>
                   d_content (task_data t) = d_content dat) ts)"

text \<open>
  \<open>Task.create\<close>. The row draws its id from the identity sequence before the
  indexes are checked, and a sequence is not rolled back: the value is spent also when
  the insert is rejected. The result is the task or the error, and the store.
\<close>

definition Task_create ::
  "int \<Rightarrow> task_code \<Rightarrow> int option \<Rightarrow> int option \<Rightarrow> string option \<Rightarrow> task_data \<Rightarrow> db
     \<Rightarrow> (error + task) \<times> db" where
  "Task_create now c started finished by dat d =
     (let drawn = d\<lparr>tasks_id_seq := tasks_id_seq d + 1\<rparr>
      in if violates_mentionid_idx (tasks d) c dat
         then (Inl (UniqueViolation ''tasks_code_data_mentionid_idx''), drawn)
         else if violates_mentionid_content_idx (tasks d) c dat
         then (Inl (UniqueViolation ''tasks_code_data_mentionid_content_idx''), drawn)
         else
           (let t = \<lparr>task_id = tasks_id_seq d, code = c, task_data = dat,
                     startedAt = started, finishedAt = finished, createdBy = by,
                     createdAt = now\<rparr>
            in (Inr t, drawn\<lparr>tasks := tasks d @ [t]\<rparr>)))"

text \<open>\<open>Task.update({finishedAt, data}, {where: {id}})\<close>.\<close>

definition Task_update :: "int \<Rightarrow> int option \<Rightarrow> task_data \<Rightarrow> db \<Rightarrow> db" where
  "Task_update i finished dat d =
     d\<lparr>tasks := map (\<lambda>t. if task_id t = i then t\<lparr>finishedAt := finished, task_data := dat\<rparr>
                          else t) (tasks d)\<rparr>"

definition SOCIAL_MEDIA_API_TASK_REPLY_INTERVAL :: int where
  "SOCIAL_MEDIA_API_TASK_REPLY_INTERVAL = 5 * 60 * 1000"

definition SOCIAL_MEDIA_API_TASK_FETCH_COMMENTS_INTERVAL :: int where
  "SOCIAL_MEDIA_API_TASK_FETCH_COMMENTS_INTERVAL = 10 * 60 * 1000"

text \<open>
  The rows \<open>getRecentTasksQuery\<close> selects. A comparison with a null \<open>startedAt\<close> is
  not true.
\<close>

definition getRecentTasksQuery ::
  "int \<Rightarrow> task_code \<Rightarrow> int \<Rightarrow> bool \<Rightarrow> mention_type option \<Rightarrow> db \<Rightarrow> task list" where
  "getRecentTasksQuery now type interval includeUnfinished mentionType d =
     filter (\<lambda>t. code t = type \<and> createdAt t \<ge> now - interval \<and>
                 (includeUnfinished \<longrightarrow>
                    (case startedAt t of None \<Rightarrow> False | Some s \<Rightarrow> s \<ge> now - interval) \<and>
                    finishedAt t = None) \<and>
                 (case mentionType of
                    None \<Rightarrow> True
                  | Some ty \<Rightarrow>
                      list_ex (\<lambda>m. Some (mention_id m) = d_mentionId (task_data t) \<and>
                                   mention_type m = ty) (mentions d)))
       (tasks d)"

subsection \<open>Fetching (mention-comment-adapter.js)\<close>

text \<open>
  \<open>_findFreshlyFetchedPostIds\<close>: the \<open>data->>'posts'\<close> of every \<open>FETCH_COMMENTS\<close>
  task created within the interval, parsed, flattened by one level and made a set. A
  task without the key yields \<open>null\<close>. The elements are whatever the tasks hold:
  post ids for a finished task, whole post objects for one that \<open>processFetchTask\<close>
  has not finished yet.
\<close>

definition findFreshlyFetchedPostIds :: "int \<Rightarrow> db \<Rightarrow> json_post list" where
  "findFreshlyFetchedPostIds now d =
     (let existingTasks = getRecentTasksQuery now FETCH_COMMENTS
                            SOCIAL_MEDIA_API_TASK_FETCH_COMMENTS_INTERVAL False None d
      in remdups (concat (map (\<lambda>t. case d_posts (task_data t) of
                                       None \<Rightarrow> [JsonNull]
                                     | Some ps \<Rightarrow> ps) existingTasks)))"

text \<open>\<open>Array.prototype.findIndex\<close>; \<open>None\<close> where JavaScript returns \<open>-1\<close>.\<close>

fun findIndex :: "('a \<Rightarrow> bool) \<Rightarrow> 'a list \<Rightarrow> nat option" where
  "findIndex P [] = None"
| "findIndex P (x # xs) = (if P x then Some 0 else map_option Suc (findIndex P xs))"

text \<open>
  The filter of \<open>fetchAndSyncMentions\<close>:
  \<open>!existingPostIds.includes(post.id) && self.findIndex((p) => p.id === post.id) === index\<close>.
  \<open>includes\<close> compares the string \<open>post.id\<close> with the elements by strict equality,
  so only an element that is that string counts.
\<close>

definition postsToFetch :: "json_post list \<Rightarrow> post list \<Rightarrow> post list" where
  "postsToFetch existingPostIds posts =
     map snd (filter (\<lambda>(index, p).
                        PostIdOnly (post_id p) \<notin> set existingPostIds \<and>
                        findIndex (\<lambda>q. post_id q = post_id p) posts = Some index)
                (enumerate 0 posts))"

text \<open>\<open>post.id\<close> of an element of \<open>task.data.posts\<close>, as \<open>JSON\<close> stores it afterwards.\<close>

fun idOfPost :: "json_post \<Rightarrow> error + json_post" where
  "idOfPost (PostObject p) = Inr (PostIdOnly (post_id p))"
| "idOfPost (PostIdOnly s) = Inr JsonNull"
| "idOfPost JsonNull = Inl TypeError"

fun mapIds :: "json_post list \<Rightarrow> error + json_post list" where
  "mapIds [] = Inr []"
| "mapIds (p # ps) =
     (case idOfPost p of
        Inl e \<Rightarrow> Inl e
      | Inr i \<Rightarrow> (case mapIds ps of Inl e \<Rightarrow> Inl e | Inr is \<Rightarrow> Inr (i # is)))"

text \<open>
  The traversal of the posts of a task by \<open>processPromises\<close>, in order:
  \<open>findAllComments post\<close> is what the gateway answers for the post, and each answer
  is ingested. The result is the store and the comments of all posts.
\<close>

fun fetchPosts ::
  "int \<Rightarrow> (json_post \<Rightarrow> comment list) \<Rightarrow> json_post list \<Rightarrow> db \<Rightarrow> error + (comment list \<times> db)" where
  "fetchPosts taskId findAllComments [] d = Inr ([], d)"
| "fetchPosts taskId findAllComments (p # ps) d =
     (let comments = findAllComments p
      in case ingestComments taskId comments d of
           Inl e \<Rightarrow> Inl e
         | Inr d1 \<Rightarrow>
             (case fetchPosts taskId findAllComments ps d1 of
                Inl e \<Rightarrow> Inl e
              | Inr (rest, d2) \<Rightarrow> Inr (comments @ rest, d2)))"

definition processFetchTask ::
  "int \<Rightarrow> (json_post \<Rightarrow> comment list) \<Rightarrow> task \<Rightarrow> db \<Rightarrow> error + db" where
  "processFetchTask now findAllComments task d =
     (case d_posts (task_data task) of
        None \<Rightarrow> Inl TypeError
      | Some posts \<Rightarrow>
          (case fetchPosts (task_id task) findAllComments posts d of
             Inl e \<Rightarrow> Inl e
           | Inr (comments, d1) \<Rightarrow>
               (case mapIds posts of
                  Inl e \<Rightarrow> Inl e
                | Inr ids \<Rightarrow>
                    Inr (Task_update (task_id task) (Some now)
                           ((task_data task)\<lparr>d_posts := Some ids, d_comments := Some comments\<rparr>)
                           d1))))"

text \<open>
  \<open>MentionCommentAdapter.fetchAndSyncMentions\<close>; \<open>posts\<close> is what
  \<open>findAllPosts\<close> returned.
\<close>

definition fetchAndSyncMentions ::
  "int \<Rightarrow> reqUser \<Rightarrow> post list \<Rightarrow> (json_post \<Rightarrow> comment list) \<Rightarrow> db \<Rightarrow> error + db" where
  "fetchAndSyncMentions now user posts findAllComments d =
     (let existingPostIds = findFreshlyFetchedPostIds now d;
          toFetch = postsToFetch existingPostIds posts
      in if length toFetch > 0
         then
           (case Task_create now FETCH_COMMENTS (Some now) None (email user)
                   (emptyData\<lparr>d_posts := Some (map PostObject toFetch),
                              d_reqUser := Some user\<rparr>) d of
              (Inl e, d1) \<Rightarrow> Inl e
            | (Inr task, d1) \<Rightarrow> processFetchTask now findAllComments task d1)
         else Inr d)"

subsection \<open>Replying: the gateway (social-media-service.js, replyComment)\<close>

text \<open>
  \<open>response\<close> is what \<open>httpRequest\<close> gives for the \<open>POST\<close>: the error the handler
  throws, or the body \<open>response.data\<close>. On a truthy \<open>success\<close> the function itself
  creates the child mention; reading \<open>comment\<close> of a missing platform entry throws.
\<close>

definition replyComment ::
  "(http_error breaker_error + reply_response) \<Rightarrow> mention \<Rightarrow> db
     \<Rightarrow> (error + reply_response) \<times> db" where
  "replyComment response m d =
     (case response of
        Inl e \<Rightarrow> (Inl (RequestFailed e), d)
      | Inr body \<Rightarrow>
          if success body
          then
            (case map_of (platforms body) (platform m) of
               None \<Rightarrow> (Inl TypeError, d)
             | Some replyData \<Rightarrow>
                 (case Mention_create
                         \<lparr>mention_id = 0, content = rd_comment replyData,
                          socialMediaPlatformRef = rd_commentId replyData,
                          socialMediaAPIPostRef = socialMediaAPIPostRef m,
                          platform = platform m, mention_type = REPLY,
                          mention_state = None, userId = None,
                          mentionId = Some (mention_id m),
                          mention_data = ReplyPayload body\<rparr> d of
                    (Some e, d') \<Rightarrow> (Inl e, d')
                  | (None, d') \<Rightarrow> (Inr body, d')))
          else (Inr body, d))"

subsection \<open>Replying: the adapter (base-mention-adapter.js)\<close>

text \<open>
  \<open>this.socialMediaService.reply\<close>, the call \<open>processReplyTask\<close> makes, is a
  parameter: given the mention, the content and the store it returns what the call
  returns or throws, and the store as the call leaves it. The call is not handed the
  transaction, so what it writes is not undone by a rollback.
\<close>

type_synonym reply_service = "mention \<Rightarrow> string option \<Rightarrow> db \<Rightarrow> (error + reply_response) \<times> db"

text \<open>\<open>MentionCommentAdapter.processReplyResponseToMention\<close>, with \<open>type\<close> and
  \<open>mentionId\<close> as \<open>processReplyTask\<close> sets them.\<close>

definition processReplyResponseToMention :: "reply_response \<Rightarrow> mention \<Rightarrow> error + mention" where
  "processReplyResponseToMention replyResponse m =
     (case map_of (platforms replyResponse) (platform m) of
        None \<Rightarrow> Inl TypeError
      | Some replyData \<Rightarrow>
          Inr \<lparr>mention_id = 0, content = rd_comment replyData,
               socialMediaPlatformRef = rd_commentId replyData,
               socialMediaAPIPostRef = socialMediaAPIPostRef m,
               platform = platform m, mention_type = REPLY,
               mention_state = None, userId = None,
               mentionId = Some (mention_id m),
               mention_data = ReplyPayload replyResponse\<rparr>)"

text \<open>
  What a call left behind: the error it threw, if any, the store, and how often the
  reply call of the gateway was made.
\<close>

record reply_out =
  thrown :: "error option"
  store :: db
  replyCalls :: nat

text \<open>
  \<open>processReplyTask\<close>. An error thrown inside the transaction rolls back what the
  transaction wrote, which leaves the store as the reply call left it, but for an id
  that a child rejected by the unique index has drawn.
\<close>

definition processReplyTask :: "int \<Rightarrow> reply_service \<Rightarrow> task \<Rightarrow> db \<Rightarrow> reply_out" where
  "processReplyTask now reply task d =
     (if \<not> d_isIgnored (task_data task)
      then
        (case d_reqUser (task_data task) of
           None \<Rightarrow> \<lparr>thrown = Some SyntaxError, store = d, replyCalls = 0\<rparr>
         | Some parsedReqUser \<Rightarrow>
             (case findByPk (d_mentionId (task_data task)) d of
                None \<Rightarrow> \<lparr>thrown = None, store = d, replyCalls = 0\<rparr>
              | Some m \<Rightarrow>
                  (case reply m (d_content (task_data task)) d of
                     (Inl e, d1) \<Rightarrow> \<lparr>thrown = Some e, store = d1, replyCalls = 1\<rparr>
                   | (Inr result, d1) \<Rightarrow>
                       (let written =
                              (if status result = Some ''success''
                               then
                                 (case processReplyResponseToMention result m of
                                    Inl e \<Rightarrow> (Some e, d1)
                                  | Inr values \<Rightarrow>
                                      (case Mention_create values d1 of
                                         (Some e, d2) \<Rightarrow> (Some e, d2)
                                       | (None, d2) \<Rightarrow>
                                           (None, updateState (mention_id m) REPLIED d2)))
                               else (None, updateState (mention_id m) PROVIDER_ERROR d1))
                        in case written of
                             (Some e, d2) \<Rightarrow>
                               \<lparr>thrown = Some e,
                                store = d1\<lparr>mentions_id_seq := mentions_id_seq d2\<rparr>,
                                replyCalls = 1\<rparr>
                           | (None, d3) \<Rightarrow>
                               \<lparr>thrown = None,
                                store = Task_update (task_id task)
                                          (if status result = Some ''success''
                                           then Some now else None)
                                          ((task_data task)\<lparr>d_result := Some result\<rparr>) d3,
                                replyCalls = 1\<rparr>))))
      else \<lparr>thrown = None, store = d, replyCalls = 0\<rparr>)"

text \<open>The \<open>delete from tasks\<close> that opens \<open>reply\<close>.\<close>

definition deleteStaleReplyTasks :: "int \<Rightarrow> int \<Rightarrow> db \<Rightarrow> db" where
  "deleteStaleReplyTasks now i d =
     d\<lparr>tasks := filter (\<lambda>t. \<not> (code t = REPLY_MENTION \<and>
                                 d_mentionId (task_data t) = Some i \<and>
                                 finishedAt t = None \<and>
                                 (case startedAt t of
                                    None \<Rightarrow> False
                                  | Some s \<Rightarrow> s < now - SOCIAL_MEDIA_API_TASK_REPLY_INTERVAL)))
                     (tasks d)\<rparr>"

definition audit :: "mention_state \<Rightarrow> int \<Rightarrow> int \<Rightarrow> string option \<Rightarrow> db \<Rightarrow> db" where
  "audit ev mid tid by d =
     d\<lparr>audits := audits d @ [\<lparr>event = ev, audit_mentionId = mid, audit_taskId = tid,
                              audit_createdBy = by\<rparr>]\<rparr>"

text \<open>The \<open>catch\<close> block of \<open>reply\<close>: record the attempt, then throw the error again.\<close>

definition recordIgnored ::
  "int \<Rightarrow> int \<Rightarrow> string \<Rightarrow> reqUser \<Rightarrow> error \<Rightarrow> nat \<Rightarrow> db \<Rightarrow> reply_out" where
  "recordIgnored now i c user err n d =
     (case Task_create now REPLY_MENTION_IGNORED (Some now) (Some now) (email user)
             (emptyData\<lparr>d_mentionId := Some i, d_content := Some c,
                        d_reqUser := Some user, d_error := Some err\<rparr>) d of
        (Inl e, d') \<Rightarrow> \<lparr>thrown = Some e, store = d', replyCalls = n\<rparr>
      | (Inr t, d') \<Rightarrow> \<lparr>thrown = Some err, store = d', replyCalls = n\<rparr>)"

definition reply :: "int \<Rightarrow> reply_service \<Rightarrow> mention \<Rightarrow> string \<Rightarrow> reqUser \<Rightarrow> db \<Rightarrow> reply_out" where
  "reply now svc m c user d =
     (let i = mention_id m;
          d0 = deleteStaleReplyTasks now i d
      in case Task_create now REPLY_MENTION (Some now) None (email user)
                (emptyData\<lparr>d_mentionId := Some i, d_content := Some c,
                           d_reqUser := Some user\<rparr>) d0 of
           (Inl err, d1) \<Rightarrow> recordIgnored now i c user err 0 d1
         | (Inr task, d1) \<Rightarrow>
             (let d2 = updateState i REPLY_ATTEMPT
                         (audit REPLY_ATTEMPT i (task_id task) (email user) d1);
                  r = processReplyTask now svc task d2
              in case thrown r of
                   None \<Rightarrow> r
                 | Some err \<Rightarrow> recordIgnored now i c user err (replyCalls r) (store r)))"

subsection \<open>Replying: the entry point (MentionDataService.reply)\<close>

text \<open>
  The values a caller can pass for \<open>mentionId\<close> and \<open>content\<close>. \<open>JsNumber n\<close> is
  a whole number below \<open>10 ^ 21\<close> in magnitude.
\<close>

datatype js_value =
    JsUndefined | JsNull | JsBoolean bool | JsNumber int | JsNaN | JsString string | JsObject

fun truthy :: "js_value \<Rightarrow> bool" where
  "truthy JsUndefined = False"
| "truthy JsNull = False"
| "truthy (JsBoolean b) = b"
| "truthy (JsNumber n) = (n \<noteq> 0)"
| "truthy JsNaN = False"
| "truthy (JsString s) = (s \<noteq> [])"
| "truthy JsObject = True"

fun typeof :: "js_value \<Rightarrow> string" where
  "typeof JsUndefined = ''undefined''"
| "typeof JsNull = ''object''"
| "typeof (JsBoolean b) = ''boolean''"
| "typeof (JsNumber n) = ''number''"
| "typeof JsNaN = ''number''"
| "typeof (JsString s) = ''string''"
| "typeof JsObject = ''object''"

text \<open>
  \<open>parseInt(s, 10)\<close>: leading white space is skipped, then an optional sign and the
  longest run of decimal digits are read; what follows is ignored; without a digit the
  result is \<open>NaN\<close>.
\<close>

definition isWhiteSpace :: "char \<Rightarrow> bool" where
  "isWhiteSpace c = (c \<in> set [CHR '' '', CHR 0x09, CHR 0x0A, CHR 0x0B, CHR 0x0C, CHR 0x0D])"

definition digitValue :: "char \<Rightarrow> nat option" where
  "digitValue c =
     (let n = of_char c :: nat in if 48 \<le> n \<and> n \<le> 57 then Some (n - 48) else None)"

fun parseDigits :: "string \<Rightarrow> nat option \<Rightarrow> nat option" where
  "parseDigits [] acc = acc"
| "parseDigits (c # cs) acc =
     (case digitValue c of
        None \<Rightarrow> acc
      | Some v \<Rightarrow> parseDigits cs (Some (10 * (case acc of None \<Rightarrow> 0 | Some a \<Rightarrow> a) + v)))"

definition parseInt10 :: "string \<Rightarrow> js_value" where
  "parseInt10 s =
     (let t = dropWhile isWhiteSpace s;
          (negative, digits) =
             (case t of
                c # r \<Rightarrow> if c = CHR ''-'' then (True, r)
                          else if c = CHR ''+'' then (False, r) else (False, t)
              | [] \<Rightarrow> (False, t))
      in case parseDigits digits None of
           None \<Rightarrow> JsNaN
         | Some n \<Rightarrow> JsNumber (if negative then - int n else int n))"

text \<open>
  \<open>parseInt(String(v), 10)\<close>. \<open>String\<close> of the values that are not strings gives
  \<open>undefined\<close>, \<open>null\<close>, \<open>true\<close>, \<open>false\<close>, \<open>NaN\<close> and \<open>[object Object]\<close>, none
  of which starts with a digit; for a whole number below \<open>10 ^ 21\<close> in magnitude it
  gives the digits of the number. From \<open>10 ^ 21\<close> on it gives the exponent notation,
  of which \<open>parseInt\<close> reads the digits before the point; these numbers are not among
  the values of the model.
\<close>

fun parseIntOfString :: "js_value \<Rightarrow> js_value" where
  "parseIntOfString (JsString s) = parseInt10 s"
| "parseIntOfString (JsNumber n) = JsNumber n"
| "parseIntOfString v = JsNaN"

text \<open>The four checks that open \<open>MentionDataService.reply\<close>.\<close>

definition validateReply :: "js_value \<Rightarrow> js_value \<Rightarrow> reqUser option \<Rightarrow> error option" where
  "validateReply givenId c user =
     (if \<not> truthy givenId \<or> typeof (parseIntOfString givenId) \<noteq> ''number''
      then Some InvalidMentionId
      else if \<not> truthy c \<or> typeof c \<noteq> ''string''
      then Some InvalidContent
      else if (case c of JsString s \<Rightarrow> length s > 10000 | _ \<Rightarrow> False)
      then Some ContentExceedsMaximumLength
      else if (case user of
                 None \<Rightarrow> True
               | Some u \<Rightarrow>
                   (case user_id u of None \<Rightarrow> True | Some i \<Rightarrow> i = 0) \<or>
                   (case email u of None \<Rightarrow> True | Some e \<Rightarrow> e = []))
      then Some InvalidUser
      else None)"

text \<open>
  \<open>MentionDataService.reply\<close>; \<open>givenId\<close> is its argument \<open>mentionId\<close>. Only the
  comment adapter is registered. A key that is \<open>NaN\<close> is not a bigint, and the query
  fails.
\<close>

definition replyToMention ::
  "int \<Rightarrow> reply_service \<Rightarrow> js_value \<Rightarrow> js_value \<Rightarrow> reqUser option \<Rightarrow> db \<Rightarrow> reply_out" where
  "replyToMention now svc givenId c user d =
     (case validateReply givenId c user of
        Some e \<Rightarrow> \<lparr>thrown = Some e, store = d, replyCalls = 0\<rparr>
      | None \<Rightarrow>
          (case (parseIntOfString givenId, c, user) of
             (JsNumber pk, JsString s, Some u) \<Rightarrow>
               (case findByPk (Some pk) d of
                  None \<Rightarrow> \<lparr>thrown = Some MentionNotFound, store = d, replyCalls = 0\<rparr>
                | Some m \<Rightarrow>
                    if mention_type m = COMMENT
                    then reply now svc m s u d
                    else \<lparr>thrown = Some (NoAdapterRegistered (mention_type m)), store = d,
                          replyCalls = 0\<rparr>)
           | _ \<Rightarrow> \<lparr>thrown = Some DatabaseError, store = d, replyCalls = 0\<rparr>))"

subsection \<open>The reply index as a property of the store\<close>

text \<open>
  The \<open>REPLY_MENTION\<close> tasks of a mention, and those of them that are in flight
  (\<open>finishedAt\<close> is null).
\<close>

definition replyTasksFor :: "int \<Rightarrow> db \<Rightarrow> task list" where
  "replyTasksFor i d =
     filter (\<lambda>t. code t = REPLY_MENTION \<and> d_mentionId (task_data t) = Some i) (tasks d)"

definition inFlightReplyTasks :: "int \<Rightarrow> db \<Rightarrow> task list" where
  "inFlightReplyTasks i d = filter (\<lambda>t. finishedAt t = None) (replyTasksFor i d)"

text \<open>
  The keys of the index \<open>tasks_code_data_mentionid_idx\<close>, row by row; the index
  holds when no key occurs twice.
\<close>

definition replyKeys :: "task list \<Rightarrow> int option list" where
  "replyKeys ts =
     map (\<lambda>t. d_mentionId (task_data t))
       (filter (\<lambda>t. code t = REPLY_MENTION \<and> d_mentionId (task_data t) \<noteq> None) ts)"

definition replyIndexHolds :: "db \<Rightarrow> bool" where
  "replyIndexHolds d = distinct (replyKeys (tasks d))"

text \<open>The primary key of \<open>tasks\<close>: every id was drawn from the sequence.\<close>

definition taskIdsDrawn :: "db \<Rightarrow> bool" where
  "taskIdsDrawn d = list_all (\<lambda>t. task_id t < tasks_id_seq d) (tasks d)"

section \<open>Properties of the circuit breaker\<close>

lemma execute_closed_failure_stays:
  assumes "failures ls + 1 < maxFailures cfg" "state ls = CLOSED"
  shows "execute cfg t (Some (Inl e)) ls =
           \<lparr>outcome = Inl (Upstream e),
            st = ls\<lparr>failures := failures ls + 1, lastFailureTime := Some t\<rparr>,
            writes = persistState cfg (ls\<lparr>failures := failures ls + 1, lastFailureTime := Some t\<rparr>),
            transitions = [], calls = 1\<rparr>"
  using assms by (simp add: execute_def executeFunction_def Let_def)

lemma execute_closed_failure_opens:
  assumes "maxFailures cfg \<le> failures ls + 1" "state ls = CLOSED"
  shows "execute cfg t (Some (Inl e)) ls =
           \<lparr>outcome = Inl (CircuitOpened (failures ls + 1) (ceilSeconds (resetTimeout cfg))
                           (Upstream e)),
            st = ls\<lparr>state := OPEN, failures := failures ls + 1, lastFailureTime := Some t,
                    nextAttemptTime := Some (t + resetTimeout cfg)\<rparr>,
            writes = persistState cfg
                       (ls\<lparr>state := OPEN, failures := failures ls + 1,
                           lastFailureTime := Some t,
                           nextAttemptTime := Some (t + resetTimeout cfg)\<rparr>),
            transitions = [OPEN], calls = 1\<rparr>"
  using assms
  by (cases ls) (simp add: execute_def executeFunction_def changeState_def Let_def)

lemma execute_open_probe_success:
  assumes "state ls = OPEN" "toNumber (nextAttemptTime ls) \<le> t"
  shows "execute cfg t (Some (Inr v)) ls =
           \<lparr>outcome = Inr v, st = initialLocalState,
            writes = persistState cfg (ls\<lparr>state := HALF_OPEN\<rparr>) @
                     persistState cfg initialLocalState,
            transitions = [HALF_OPEN, CLOSED], calls = 1\<rparr>"
  using assms
  by (cases ls)
     (simp add: execute_def executeFunction_def changeState_def Let_def initialLocalState_def)

lemma execute_closed_success:
  assumes "state ls = CLOSED"
  shows "execute cfg now (Some (Inr v)) ls =
           \<lparr>outcome = Inr v, st = initialLocalState,
            writes = [], transitions = [], calls = 1\<rparr>"
  using assms
  by (cases ls)
     (simp add: execute_def executeFunction_def changeState_def Let_def initialLocalState_def)

lemma execute_writes_origin:
  assumes "writes (execute cfg now fn ls) \<noteq> []"
  shows "transitions (execute cfg now fn ls) \<noteq> [] \<or>
         (state ls = CLOSED \<and> isl (outcome (execute cfg now fn ls)))"
  using assms
  by (cases ls; cases "state ls")
     (auto simp: execute_def executeFunction_def changeState_def persistState_def Let_def
           split: prod.splits option.splits sum.splits if_splits)

lemma failureSnapshots_closed:
  "filter (\<lambda>w. state w = OPEN) (failureSnapshots f ts) = []"
  by (induction ts arbitrary: f) simp_all

lemma run_failures_then_probe:
  assumes "persistent cfg" "fs \<noteq> []" "f + int (length fs) = maxFailures cfg"
    and "fst (last fs) + resetTimeout cfg \<le> tp"
  shows "run cfg (map failing fs @ [(tp, Some (Inr v))])
           \<lparr>state = CLOSED, failures = f, lastFailureTime = l, nextAttemptTime = None\<rparr>
         = \<lparr>final = initialLocalState,
            saved = failureSnapshots f (map fst (butlast fs)) @
              [\<lparr>state = OPEN, failures = maxFailures cfg,
                lastFailureTime = Some (fst (last fs)),
                nextAttemptTime = Some (fst (last fs) + resetTimeout cfg)\<rparr>,
               \<lparr>state = HALF_OPEN, failures = maxFailures cfg,
                lastFailureTime = Some (fst (last fs)),
                nextAttemptTime = Some (fst (last fs) + resetTimeout cfg)\<rparr>,
               initialLocalState],
            visited = [OPEN, HALF_OPEN, CLOSED],
            invoked = length fs + 1\<rparr>"
  using assms
proof (induction fs arbitrary: f l)
  case Nil
  then show ?case by simp
next
  case (Cons x xs)
  show ?case
  proof (cases xs)
    case Nil
    with Cons.prems show ?thesis
      by (simp add: failing_def execute_closed_failure_opens execute_open_probe_success
          persistState_def toNumber_def Let_def)
  next
    case (Cons y ys)
    with Cons.prems have lt: "f + 1 < maxFailures cfg" by simp
    have ih: "run cfg (map failing xs @ [(tp, Some (Inr v))])
           \<lparr>state = CLOSED, failures = f + 1, lastFailureTime = Some (fst x),
            nextAttemptTime = None\<rparr>
         = \<lparr>final = initialLocalState,
            saved = failureSnapshots (f + 1) (map fst (butlast xs)) @
              [\<lparr>state = OPEN, failures = maxFailures cfg,
                lastFailureTime = Some (fst (last xs)),
                nextAttemptTime = Some (fst (last xs) + resetTimeout cfg)\<rparr>,
               \<lparr>state = HALF_OPEN, failures = maxFailures cfg,
                lastFailureTime = Some (fst (last xs)),
                nextAttemptTime = Some (fst (last xs) + resetTimeout cfg)\<rparr>,
               initialLocalState],
            visited = [OPEN, HALF_OPEN, CLOSED],
            invoked = length xs + 1\<rparr>"
      using Cons.prems Cons by (intro Cons.IH) auto
    have ne: "xs \<noteq> []" using Cons by simp
    show ?thesis
      using lt Cons.prems(1) ne
      by (simp add: failing_def [of x] execute_closed_failure_stays persistState_def
          Let_def ih)
  qed
qed

text \<open>
  Claim C3. A breaker that persists its state, with a positive threshold \<open>maxFailures\<close>
  and a positive \<open>resetTimeout\<close>, starts \<open>CLOSED\<close> with zero failures and is driven
  by exactly \<open>maxFailures\<close> consecutive failing calls and then one successful call at or
  after \<open>nextAttemptTime\<close>. It visits \<open>CLOSED\<close>, \<open>OPEN\<close>, \<open>HALF_OPEN\<close>, \<open>CLOSED\<close> in
  that order; the one snapshot written on leaving \<open>CLOSED\<close> carries
  \<open>nextAttemptTime = now + resetTimeout\<close>, which is strictly after the \<open>now\<close> of that
  call; and the last snapshot written, on returning to \<open>CLOSED\<close>, carries
  \<open>failures = 0\<close>.
\<close>

theorem breaker_opens_then_recovers:
  assumes "persistent cfg" "0 < maxFailures cfg" "0 < resetTimeout cfg"
    and "int (length fs) = maxFailures cfg"
    and "fst (last fs) + resetTimeout cfg \<le> tp"
  shows "(let r = run cfg (map failing fs @ [(tp, Some (Inr v))]) initialLocalState;
              now = fst (last fs)
          in state initialLocalState # visited r = [CLOSED, OPEN, HALF_OPEN, CLOSED] \<and>
             filter (\<lambda>w. state w = OPEN) (saved r) =
               [\<lparr>state = OPEN, failures = maxFailures cfg, lastFailureTime = Some now,
                 nextAttemptTime = Some (now + resetTimeout cfg)\<rparr>] \<and>
             now < now + resetTimeout cfg \<and>
             last (saved r) =
               \<lparr>state = CLOSED, failures = 0, lastFailureTime = None,
                nextAttemptTime = None\<rparr> \<and>
             final r = last (saved r) \<and>
             invoked r = length fs + 1)"
proof -
  from assms(2,4) have ne: "fs \<noteq> []" by auto
  have eq: "0 + int (length fs) = maxFailures cfg" using assms(4) by simp
  note r = run_failures_then_probe [OF assms(1) ne eq assms(5), where v = v and l = None]
  show ?thesis
    using assms(3)
    by (simp add: Let_def initialLocalState_def failureSnapshots_closed
        r [unfolded initialLocalState_def])
qed

theorem breaker_opens_then_recovers_witness:
  "(let cfg = \<lparr>maxFailures = 3, resetTimeout = 1000, persistent = True\<rparr>;
        r = run cfg (map failing [(0, ''e1''), (10, ''e2''), (20::int, ''e3'')] @
                     [(1020, Some (Inr ''ok''))]) initialLocalState
    in state initialLocalState # visited r = [CLOSED, OPEN, HALF_OPEN, CLOSED] \<and>
       filter (\<lambda>w. state w = OPEN) (saved r) =
         [\<lparr>state = OPEN, failures = 3, lastFailureTime = Some 20,
           nextAttemptTime = Some 1020\<rparr>] \<and>
       last (saved r) =
         \<lparr>state = CLOSED, failures = 0, lastFailureTime = None, nextAttemptTime = None\<rparr> \<and>
       final r = last (saved r) \<and> invoked r = 4)"
  using breaker_opens_then_recovers
    [of "\<lparr>maxFailures = 3, resetTimeout = 1000, persistent = True\<rparr>"
        "[(0, ''e1''), (10, ''e2''), (20::int, ''e3'')]" 1020 "''ok''"]
  by (simp add: Let_def)

text \<open>
  Claim C4. An \<open>execute\<close> call on a breaker whose state is \<open>OPEN\<close>: before
  \<open>nextAttemptTime\<close> it rejects at once with the "circuit is OPEN" error, the wrapped
  function is not invoked and nothing changes. At or after \<open>nextAttemptTime\<close> the
  breaker enters \<open>HALF_OPEN\<close>, which it writes, and invokes the wrapped function
  exactly once as a probe: if the function returns, its value is the result and the
  breaker goes on to \<open>CLOSED\<close> with the counters reset; if it throws, the breaker
  goes back to \<open>OPEN\<close> with one more failure and a new \<open>nextAttemptTime\<close>, and
  the function's error comes wrapped in the "circuit opened" error.
\<close>

theorem execute_when_open:
  assumes "state ls = OPEN"
  shows "(now < toNumber (nextAttemptTime ls) \<longrightarrow>
            execute cfg now (Some r) ls =
              \<lparr>outcome = Inl (CircuitIsOpen (failures ls)
                               (ceilSeconds (toNumber (nextAttemptTime ls) - now))),
               st = ls, writes = [], transitions = [], calls = 0\<rparr>) \<and>
         (toNumber (nextAttemptTime ls) \<le> now \<longrightarrow>
            execute cfg now (Some r) ls =
              (case r of
                 Inr v \<Rightarrow>
                   \<lparr>outcome = Inr v,
                    st = \<lparr>state = CLOSED, failures = 0, lastFailureTime = None,
                          nextAttemptTime = None\<rparr>,
                    writes =
                      (if persistent cfg
                       then [\<lparr>state = HALF_OPEN, failures = failures ls,
                              lastFailureTime = lastFailureTime ls,
                              nextAttemptTime = nextAttemptTime ls\<rparr>,
                             \<lparr>state = CLOSED, failures = 0, lastFailureTime = None,
                              nextAttemptTime = None\<rparr>]
                       else []),
                    transitions = [HALF_OPEN, CLOSED], calls = 1\<rparr>
               | Inl e \<Rightarrow>
                   \<lparr>outcome = Inl (CircuitOpened (failures ls + 1)
                                    (- ((- resetTimeout cfg) div 1000)) (Upstream e)),
                    st = \<lparr>state = OPEN, failures = failures ls + 1,
                          lastFailureTime = Some now,
                          nextAttemptTime = Some (now + resetTimeout cfg)\<rparr>,
                    writes =
                      (if persistent cfg
                       then [\<lparr>state = HALF_OPEN, failures = failures ls,
                              lastFailureTime = lastFailureTime ls,
                              nextAttemptTime = nextAttemptTime ls\<rparr>,
                             \<lparr>state = OPEN, failures = failures ls + 1,
                              lastFailureTime = Some now,
                              nextAttemptTime = Some (now + resetTimeout cfg)\<rparr>]
                       else []),
                    transitions = [HALF_OPEN, OPEN], calls = 1\<rparr>))"
  using assms
  by (cases ls; cases r)
     (simp_all add: execute_def executeFunction_def changeState_def persistState_def Let_def
        ceilSeconds_def)

theorem execute_when_open_witness:
  "(let ls = \<lparr>state = OPEN, failures = 5, lastFailureTime = Some 100,
              nextAttemptTime = Some 60100\<rparr>;
        cfg = \<lparr>maxFailures = 5, resetTimeout = 60000, persistent = True\<rparr>
    in execute cfg 200 (Some (Inr ''ok'' :: string + string)) ls =
         \<lparr>outcome = Inl (CircuitIsOpen 5 60), st = ls, writes = [], transitions = [],
          calls = 0\<rparr> \<and>
       execute cfg 60100 (Some (Inr ''ok'' :: string + string)) ls =
         \<lparr>outcome = Inr ''ok'',
          st = \<lparr>state = CLOSED, failures = 0, lastFailureTime = None,
                nextAttemptTime = None\<rparr>,
          writes = [\<lparr>state = HALF_OPEN, failures = 5, lastFailureTime = Some 100,
                     nextAttemptTime = Some 60100\<rparr>,
                    \<lparr>state = CLOSED, failures = 0, lastFailureTime = None,
                     nextAttemptTime = None\<rparr>],
          transitions = [HALF_OPEN, CLOSED], calls = 1\<rparr> \<and>
       execute cfg 60100 (Some (Inl ''down'' :: string + string)) ls =
         \<lparr>outcome = Inl (CircuitOpened 6 60 (Upstream ''down'')),
          st = \<lparr>state = OPEN, failures = 6, lastFailureTime = Some 60100,
                nextAttemptTime = Some 120100\<rparr>,
          writes = [\<lparr>state = HALF_OPEN, failures = 5, lastFailureTime = Some 100,
                     nextAttemptTime = Some 60100\<rparr>,
                    \<lparr>state = OPEN, failures = 6, lastFailureTime = Some 60100,
                     nextAttemptTime = Some 120100\<rparr>],
          transitions = [HALF_OPEN, OPEN], calls = 1\<rparr>)"
  using
    execute_when_open
      [where ls = "\<lparr>state = OPEN, failures = 5, lastFailureTime = Some 100,
            nextAttemptTime = Some 60100\<rparr>" and now = 200
          and cfg = "\<lparr>maxFailures = 5, resetTimeout = 60000, persistent = True\<rparr>"
          and r = "Inr ''ok'' :: string + string"]
    execute_when_open
      [where ls = "\<lparr>state = OPEN, failures = 5, lastFailureTime = Some 100,
            nextAttemptTime = Some 60100\<rparr>" and now = 60100
          and cfg = "\<lparr>maxFailures = 5, resetTimeout = 60000, persistent = True\<rparr>"
          and r = "Inr ''ok'' :: string + string"]
    execute_when_open
      [where ls = "\<lparr>state = OPEN, failures = 5, lastFailureTime = Some 100,
            nextAttemptTime = Some 60100\<rparr>" and now = 60100
          and cfg = "\<lparr>maxFailures = 5, resetTimeout = 60000, persistent = True\<rparr>"
          and r = "Inl ''down'' :: string + string"]
  by (simp add: Let_def toNumber_def ceilSeconds_def)

text \<open>
  Claim C10. The breaker writes its state only when \<open>changeState\<close> changes the state or
  when a call fails while the circuit is \<open>CLOSED\<close>. A successful call on a \<open>CLOSED\<close>
  circuit resets \<open>failures\<close>, \<open>lastFailureTime\<close> and \<open>nextAttemptTime\<close> in memory and
  writes nothing. So after one failure and one success on a fresh persistent breaker
  whose threshold is above 1, the stored row, and the health snapshot that reads it,
  still show \<open>failures = 1\<close> and the time of that failure, while the breaker's own state
  has \<open>failures = 0\<close> and no timestamps.
\<close>

theorem closed_success_is_not_persisted:
  "(writes (execute cfg now fn ls) \<noteq> [] \<longrightarrow>
      transitions (execute cfg now fn ls) \<noteq> [] \<or>
      (state ls = CLOSED \<and> isl (outcome (execute cfg now fn ls)))) \<and>
   (state ls = CLOSED \<longrightarrow>
      execute cfg now (Some (Inr v)) ls =
        \<lparr>outcome = Inr v,
         st = \<lparr>state = CLOSED, failures = 0, lastFailureTime = None,
               nextAttemptTime = None\<rparr>,
         writes = [], transitions = [], calls = 1\<rparr>) \<and>
   (persistent cfg \<and> 1 < maxFailures cfg \<longrightarrow>
      (let r = run cfg [(t1, Some (Inl e)), (t2, Some (Inr v))] initialLocalState
       in final r = \<lparr>state = CLOSED, failures = 0, lastFailureTime = None,
                      nextAttemptTime = None\<rparr> \<and>
          findHealth (fold (saveStateFn key) (saved r) []) =
            \<lparr>h_status = ''healthy'',
             h_circuits = [\<lparr>h_platform = key, h_state = CLOSED, h_failures = 1,
                          h_lastFailureTime = Some t1, h_nextAttemptTime = None,
                          h_healthy = True\<rparr>]\<rparr>))"
proof (intro conjI impI)
  assume "writes (execute cfg now fn ls) \<noteq> []"
  then show "transitions (execute cfg now fn ls) \<noteq> [] \<or>
      (state ls = CLOSED \<and> isl (outcome (execute cfg now fn ls)))"
    by (rule execute_writes_origin)
next
  assume "state ls = CLOSED"
  then show "execute cfg now (Some (Inr v)) ls =
        \<lparr>outcome = Inr v,
         st = \<lparr>state = CLOSED, failures = 0, lastFailureTime = None,
               nextAttemptTime = None\<rparr>,
         writes = [], transitions = [], calls = 1\<rparr>"
    by (simp add: execute_closed_success initialLocalState_def)
next
  assume a: "persistent cfg \<and> 1 < maxFailures cfg"
  have s0: "state initialLocalState = CLOSED" "failures initialLocalState + 1 < maxFailures cfg"
    using a by (simp_all add: initialLocalState_def)
  have e1: "execute cfg t1 (Some (Inl e)) initialLocalState =
      \<lparr>outcome = Inl (Upstream e),
       st = \<lparr>state = CLOSED, failures = 1, lastFailureTime = Some t1,
             nextAttemptTime = None\<rparr>,
       writes = [\<lparr>state = CLOSED, failures = 1, lastFailureTime = Some t1,
                  nextAttemptTime = None\<rparr>],
       transitions = [], calls = 1\<rparr>"
    using a
    by (simp add: execute_closed_failure_stays [OF s0(2) s0(1)] persistState_def)
       (simp add: initialLocalState_def)
  have e2: "execute cfg t2 (Some (Inr v))
              \<lparr>state = CLOSED, failures = 1, lastFailureTime = Some t1,
               nextAttemptTime = None\<rparr> =
      \<lparr>outcome = Inr v,
       st = \<lparr>state = CLOSED, failures = 0, lastFailureTime = None,
             nextAttemptTime = None\<rparr>,
       writes = [], transitions = [], calls = 1\<rparr>"
    by (simp add: execute_closed_success) (simp add: initialLocalState_def)
  show "(let r = run cfg [(t1, Some (Inl e)), (t2, Some (Inr v))] initialLocalState
       in final r = \<lparr>state = CLOSED, failures = 0, lastFailureTime = None,
                      nextAttemptTime = None\<rparr> \<and>
          findHealth (fold (saveStateFn key) (saved r) []) =
            \<lparr>h_status = ''healthy'',
             h_circuits = [\<lparr>h_platform = key, h_state = CLOSED, h_failures = 1,
                          h_lastFailureTime = Some t1, h_nextAttemptTime = None,
                          h_healthy = True\<rparr>]\<rparr>)"
    by (simp add: Let_def e1 e2 findHealth_def)
qed

theorem closed_success_is_not_persisted_witness:
  "(let cfg = \<lparr>maxFailures = 5, resetTimeout = 60000, persistent = True\<rparr>;
        r = run cfg [(100, Some (Inl ''boom'')), (200, Some (Inr ''ok''))] initialLocalState
    in final r = \<lparr>state = CLOSED, failures = 0, lastFailureTime = None,
                   nextAttemptTime = None\<rparr> \<and>
       findHealth (fold (saveStateFn ''twitter'') (saved r) []) =
         \<lparr>h_status = ''healthy'',
          h_circuits = [\<lparr>h_platform = ''twitter'', h_state = CLOSED, h_failures = 1,
                       h_lastFailureTime = Some 100, h_nextAttemptTime = None,
                       h_healthy = True\<rparr>]\<rparr>)"
  using closed_success_is_not_persisted
    [of "\<lparr>maxFailures = 5, resetTimeout = 60000, persistent = True\<rparr>" 0 None
        initialLocalState "''ok''" 100 "''boom''" 200 "''twitter''"]
  by (simp add: Let_def execute_def executeFunction_def changeState_def persistState_def
      findHealth_def initialLocalState_def)

section \<open>Properties of the retry engine and of the handler\<close>

lemma jitter_bounds:
  assumes "0 \<le> p" "p \<le> 1000"
  shows "0 \<le> jitter p \<and> jitter p \<le> 1000"
proof -
  have lo: "0 \<le> \<lceil>p\<rceil>" using assms(1) by (simp add: le_ceiling_iff)
  have "\<lceil>p\<rceil> \<le> 1000" using assms(2) by (simp add: ceiling_le_iff)
  with lo show ?thesis by (simp add: jitter_def)
qed

lemma jitter_value:
  "jitter p = k \<longleftrightarrow> real_of_int k - 1 < p \<and> p \<le> real_of_int k"
  by (simp add: jitter_def ceiling_eq_iff)

lemma retryFrom_count:
  "attempt \<le> maxRetries cfg \<Longrightarrow>
   (let r = retryFrom cfg sr op rnd attempt s
    in 1 \<le> attempts r \<and> attempt + attempts r \<le> maxRetries cfg + 1 \<and>
       sleeps r = map (\<lambda>i. waitTime cfg i (rnd i)) [attempt ..< attempt + attempts r - 1])"
proof (induction cfg sr op rnd attempt s rule: retryFrom.induct)
  case (1 cfg sr op rnd attempt s)
  obtain res s' where o: "op attempt s = (res, s')" by (cases "op attempt s")
  show ?case
  proof (cases res)
    case (Inr v)
    with o 1(2) show ?thesis by (simp add: retryFrom.simps [of cfg sr op rnd attempt s])
  next
    case (Inl e)
    show ?thesis
    proof (cases "attempt = maxRetries cfg \<or> \<not> sr s' e")
      case True
      with o Inl 1(2) show ?thesis
        by (simp add: retryFrom.simps [of cfg sr op rnd attempt s])
    next
      case False
      then have lt: "attempt + 1 \<le> maxRetries cfg" using 1(2) by simp
      have ih: "(let r = retryFrom cfg sr op rnd (attempt + 1) s'
          in 1 \<le> attempts r \<and> attempt + 1 + attempts r \<le> maxRetries cfg + 1 \<and>
             sleeps r = map (\<lambda>i. waitTime cfg i (rnd i))
                          [attempt + 1 ..< attempt + 1 + attempts r - 1])"
        using 1(1) [OF 1(2) o [symmetric] Inl False lt] by simp
      show ?thesis
        using o Inl False 1(2) ih
        by (simp add: retryFrom.simps [of cfg sr op rnd attempt s] Let_def upt_rec [of attempt])
    qed
  qed
qed

lemma retryFrom_always_failing:
  "attempt \<le> maxRetries cfg \<Longrightarrow>
   attempts (retryFrom cfg (\<lambda>s e. True) (\<lambda>i s. (Inl e, s)) rnd attempt s) =
     maxRetries cfg + 1 - attempt \<and>
   answer (retryFrom cfg (\<lambda>s e. True) (\<lambda>i s. (Inl e, s)) rnd attempt s) = Some (Inl e)"
proof (induction "maxRetries cfg - attempt" arbitrary: attempt)
  case 0
  then have "attempt = maxRetries cfg" by simp
  then show ?case
    by (subst (1 2) retryFrom.simps) simp
next
  case (Suc n)
  then have lt: "attempt < maxRetries cfg" and n: "n = maxRetries cfg - (attempt + 1)"
    by simp_all
  from lt have le: "attempt + 1 \<le> maxRetries cfg" by simp
  from Suc(1) [OF n le] lt show ?case
    by (subst (1 2) retryFrom.simps) (simp add: Let_def)
qed

text \<open>
  Claim C8, as the code has it. The retry engine executes the operation at most
  \<open>maxRetries + 1\<close> times, and exactly so often when every execution fails and every
  retry is allowed; the error of the last execution is then thrown. There is one sleep
  between two consecutive executions, and the sleep after pass \<open>attempt\<close> is
  \<open>min (initialDelay * factor ^ attempt + jitter) maxDelay\<close>, where \<open>jitter\<close> is the
  ceiling of the number \<open>Math.random() * 1000\<close> drawn in that pass: a whole number
  from 0 to 1000, which is \<open>k\<close> exactly when the number drawn is above \<open>k - 1\<close> and
  at most \<open>k\<close>. Called through \<open>withRetry\<close> the engine has the defaults
  \<open>maxRetries = 3\<close>, \<open>initialDelay = 1000\<close>, \<open>maxDelay = 10000\<close>, \<open>factor = 2\<close>, and
  so executes a request at most 4 times; these are also the values the Social Gateway's
  handler passes. Called directly, \<open>exponentialBackoff\<close> has the default
  \<open>maxRetries = 5\<close> with the same delays and factor.
\<close>

theorem retry_engine_attempts_and_sleeps:
  "(let r = exponentialBackoff cfg sr op rnd s
    in attempts r \<le> maxRetries cfg + 1 \<and>
       length (sleeps r) = attempts r - 1 \<and>
       sleeps r =
         map (\<lambda>attempt. min (initialDelay cfg * factor cfg ^ attempt + \<lceil>rnd attempt\<rceil>)
                            (maxDelay cfg))
             [0 ..< attempts r - 1]) \<and>
   (let r = exponentialBackoff cfg (\<lambda>s e. True) (\<lambda>attempt s. (Inl e, s)) rnd s
    in attempts r = maxRetries cfg + 1 \<and> answer r = Some (Inl e)) \<and>
   (0 \<le> x \<and> x \<le> 1000 \<longrightarrow> 0 \<le> jitter x \<and> jitter x \<le> 1000) \<and>
   (jitter x = k \<longleftrightarrow> real_of_int k - 1 < x \<and> x \<le> real_of_int k) \<and>
   withRetry_config noOptions =
     \<lparr>maxRetries = 3, initialDelay = 1000, maxDelay = 10000, factor = 2\<rparr> \<and>
   withRetry noOptions None request rnd s =
     exponentialBackoff \<lparr>maxRetries = 3, initialDelay = 1000, maxDelay = 10000, factor = 2\<rparr>
       (\<lambda>s. shouldRetryHttpError) request rnd s \<and>
   attempts (withRetry noOptions None request rnd s) \<le> 4 \<and>
   handler_retry_config =
     \<lparr>maxRetries = 3, initialDelay = 1000, maxDelay = 10000, factor = 2\<rparr> \<and>
   exponentialBackoff_config noOptions =
     \<lparr>maxRetries = 5, initialDelay = 1000, maxDelay = 10000, factor = 2\<rparr>"
proof -
  have z: "\<And>c :: retry_config. 0 \<le> maxRetries c" by simp
  have count: "(let r = exponentialBackoff cfg sr op rnd s
    in attempts r \<le> maxRetries cfg + 1 \<and>
       length (sleeps r) = attempts r - 1 \<and>
       sleeps r =
         map (\<lambda>attempt. min (initialDelay cfg * factor cfg ^ attempt + \<lceil>rnd attempt\<rceil>)
                            (maxDelay cfg))
             [0 ..< attempts r - 1])"
    using retryFrom_count [OF z, of cfg sr op rnd s]
    by (simp add: Let_def exponentialBackoff_def waitTime_def jitter_def)
  have tight: "(let r = exponentialBackoff cfg (\<lambda>s e. True) (\<lambda>attempt s. (Inl e, s)) rnd s
    in attempts r = maxRetries cfg + 1 \<and> answer r = Some (Inl e))"
    by (simp add: Let_def exponentialBackoff_def retryFrom_always_failing)
  have w: "withRetry noOptions None request rnd s =
     exponentialBackoff \<lparr>maxRetries = 3, initialDelay = 1000, maxDelay = 10000, factor = 2\<rparr>
       (\<lambda>s. shouldRetryHttpError) request rnd s"
    by (simp add: withRetry_def withRetry_config_def exponentialBackoff_config_def
        noOptions_def Let_def)
  have four: "attempts (withRetry noOptions None request rnd s) \<le> 4"
    using retryFrom_count
            [OF z, of "\<lparr>maxRetries = 3, initialDelay = 1000, maxDelay = 10000, factor = 2\<rparr>"
               "\<lambda>s. shouldRetryHttpError" request rnd s]
    by (simp add: w Let_def exponentialBackoff_def)
  show ?thesis
    using count tight jitter_bounds [of x] jitter_value [of x k] w four
    by (simp add: withRetry_config_def exponentialBackoff_config_def noOptions_def
        handler_retry_config_def)
qed

theorem retry_engine_attempts_and_sleeps_witness:
  "(let cfg = \<lparr>maxRetries = 3, initialDelay = 1000, maxDelay = 10000, factor = 2\<rparr>;
        r = exponentialBackoff cfg (\<lambda>s e. True)
              (\<lambda>attempt s. (if attempt < 2 then Inl ''e'' else Inr ''ok'', s))
              (\<lambda>attempt. 4995 / 10) ()
    in attempts r = 3 \<and> attempts r \<le> maxRetries cfg + 1 \<and> sleeps r = [1500, 2500] \<and>
       answer r = Some (Inr ''ok'')) \<and>
   (0::real) \<le> 4995 / 10 \<and> (4995 / 10 :: real) \<le> 1000 \<and> jitter (4995 / 10) = 500"
  using retry_engine_attempts_and_sleeps
    [where cfg = "\<lparr>maxRetries = 3, initialDelay = 1000, maxDelay = 10000, factor = 2\<rparr>"
       and sr = "\<lambda>s e. True"
       and op = "\<lambda>attempt s. (if attempt < 2 then Inl ''e'' else Inr ''ok'', s)"
       and rnd = "\<lambda>attempt. 4995 / 10" and s = "()" and x = "4995 / 10" and k = 500]
  by (simp add: Let_def exponentialBackoff_def retryFrom.simps jitter_def waitTime_def)

text \<open>
  The claim as the specification words it gives the engine the default
  \<open>maxRetries = 3\<close>; the parameter list of \<open>exponentialBackoff\<close> says 5, and an
  operation that always fails is executed 6 times under the defaults. And the jitter is
  not the number drawn from the interval but its ceiling: it is 1 for every number drawn
  above 0 and up to 1, and 0 for the number 0 alone.
\<close>

theorem retry_engine_defaults_counterexample:
  "exponentialBackoff_config noOptions \<noteq>
     \<lparr>maxRetries = 3, initialDelay = 1000, maxDelay = 10000, factor = 2\<rparr> \<and>
   attempts (exponentialBackoff (exponentialBackoff_config noOptions) (\<lambda>s e. True)
               (\<lambda>attempt s. (Inl ''down'', s)) (\<lambda>attempt. 0) ()) = 6 \<and>
   jitter (1 / 1000) = 1 \<and> jitter (1 / 2) = 1 \<and> jitter 1 = 1 \<and>
   {p. 0 \<le> p \<and> jitter p = 0} = {0}"
proof -
  have "{p. 0 \<le> p \<and> jitter p = 0} = {0}"
    by (auto simp: jitter_def ceiling_eq_iff)
  then show ?thesis
    by (simp add: exponentialBackoff_config_def noOptions_def exponentialBackoff_def
        retryFrom.simps jitter_def ceiling_eq_iff)
qed

lemma execute_not_closed_failure_opens:
  assumes "state ls \<noteq> CLOSED" "outcome (execute cfg now fn ls) = Inl e"
  shows "state (st (execute cfg now fn ls)) = OPEN"
  using assms
  by (cases ls; cases "state ls")
     (auto simp: execute_def executeFunction_def changeState_def persistState_def Let_def
           split: prod.splits option.splits sum.splits if_splits)

lemma execute_calls_le_1: "calls (execute cfg now fn ls) \<le> 1"
  by (auto simp: execute_def executeFunction_def changeState_def Let_def
           split: prod.splits option.splits sum.splits)

text \<open>
  Claim C5. When a call through the handler starts while the breaker's current state is
  not \<open>CLOSED\<close>, the retry loop makes one pass only: \<open>requestFn\<close> is invoked at most
  once, nothing is slept, and the caller gets exactly what the breaker's one
  \<open>execute\<close> gave, in particular the breaker's own rejection when the circuit is
  \<open>OPEN\<close> and \<open>nextAttemptTime\<close> is not reached, in which case \<open>requestFn\<close> is
  not invoked at all. The number of passes does not depend on \<open>maxRetries\<close>.
\<close>

theorem handler_does_not_retry_when_not_closed:
  assumes "getState (breaker e) \<noteq> CLOSED"
  shows "(let r = httpHandler clock requestFn rnd e;
              out = execute handler_breaker_config (clock 0) (Some (requestFn 0)) (breaker e)
          in requests (env r) \<le> requests e + 1 \<and>
             requests (env r) = requests e + calls out \<and>
             attempts r = 1 \<and>
             sleeps r = [] \<and>
             answer r = Some (outcome out) \<and>
             (getState (breaker e) = OPEN \<and> clock 0 < toNumber (nextAttemptTime (breaker e))
                \<longrightarrow> requests (env r) = requests e \<and>
                    answer r = Some (Inl (CircuitIsOpen (failures (breaker e))
                      (ceilSeconds (toNumber (nextAttemptTime (breaker e)) - clock 0))))))"
proof -
  let ?out = "execute handler_breaker_config (clock 0) (Some (requestFn 0)) (breaker e)
                :: (http_error, 'a) exec_out"
  have nc: "state (breaker e) \<noteq> CLOSED" using assms by (simp add: getState_def)
  have le: "calls ?out \<le> 1" by (rule execute_calls_le_1)
  have rej: "state (breaker e) = OPEN \<Longrightarrow> clock 0 < toNumber (nextAttemptTime (breaker e))
      \<Longrightarrow> calls ?out = 0 \<and> outcome ?out = Inl (CircuitIsOpen (failures (breaker e))
                      (ceilSeconds (toNumber (nextAttemptTime (breaker e)) - clock 0)))"
    by (simp add: execute_def)
  show ?thesis
  proof (cases "outcome ?out")
    case (Inr v)
    then show ?thesis
      using le rej
      by (auto simp: Let_def httpHandler_def exponentialBackoff_def breakerCall_def
          retryFrom.simps [of _ _ _ _ 0] getState_def)
  next
    case (Inl err)
    from execute_not_closed_failure_opens [OF nc Inl]
    have "state (st ?out) = OPEN" .
    then show ?thesis
      using Inl le rej
      by (auto simp: Let_def httpHandler_def exponentialBackoff_def breakerCall_def
          retryFrom.simps [of _ _ _ _ 0] getState_def shouldRetry_def)
  qed
qed

theorem handler_does_not_retry_when_not_closed_witness:
  "(let e = \<lparr>breaker = \<lparr>state = OPEN, failures = 5, lastFailureTime = Some 100,
                         nextAttemptTime = Some 60100\<rparr>,
             persisted = [], requests = 0\<rparr>;
        r = httpHandler (\<lambda>attempt. 200) (\<lambda>attempt. Inl NetworkError :: http_error + string)
              (\<lambda>attempt. 0) e
    in getState (breaker e) \<noteq> CLOSED \<and> requests (env r) = 0 \<and> attempts r = 1 \<and>
       sleeps r = [] \<and> answer r = Some (Inl (CircuitIsOpen 5 60)))"
  using handler_does_not_retry_when_not_closed
    [of "\<lparr>breaker = \<lparr>state = OPEN, failures = 5, lastFailureTime = Some 100,
                      nextAttemptTime = Some 60100\<rparr>,
          persisted = [], requests = 0\<rparr>"
        "\<lambda>attempt. 200" "\<lambda>attempt. Inl NetworkError :: http_error + string" "\<lambda>attempt. 0"]
  by (simp add: Let_def getState_def toNumber_def ceilSeconds_def execute_def)

section \<open>Properties of the ingestion\<close>

lemma fitRow_fits: "fitsColumns r \<Longrightarrow> fitRow r = Inr r"
  by (simp add: fitRow_def fitColumn_def fitsColumns_def)

lemma fitRows_fits: "list_all fitsColumns rs \<Longrightarrow> fitRows rs = Inr rs"
  by (induction rs) (simp_all add: fitRow_fits)

lemma fitColumn_error: "fitColumn n s = Inl e \<Longrightarrow> e = ValueTooLong n"
  by (simp add: fitColumn_def split: if_splits)

lemma fitRow_error: "fitRow r = Inl e \<Longrightarrow> e = ValueTooLong 255 \<or> e = ValueTooLong 50"
  by (auto simp: fitRow_def split: sum.splits dest: fitColumn_error)

lemma fitRows_error: "fitRows rs = Inl e \<Longrightarrow> e = ValueTooLong 255 \<or> e = ValueTooLong 50"
  by (induction rs arbitrary: e) (auto split: sum.splits dest: fitRow_error)

lemma insertOrSkip_refs:
  "fitsColumns row \<Longrightarrow>
   platformRefs (insertOrSkip row d) =
     (if socialMediaPlatformRef row \<in> set (platformRefs d)
      then platformRefs d
      else platformRefs d @ [socialMediaPlatformRef row])"
  by (simp add: insertOrSkip_def Mention_create_def platformRefs_def fitRow_fits Let_def)

lemma insertOrSkip_mentions:
  "\<exists>ys. mentions (insertOrSkip row d) = mentions d @ ys"
  by (simp add: insertOrSkip_def Mention_create_def Let_def split: sum.splits)

lemma fold_insertOrSkip_mentions:
  "\<exists>ys. mentions (fold insertOrSkip rows d) = mentions d @ ys"
proof (induction rows arbitrary: d)
  case Nil
  then show ?case by simp
next
  case (Cons r rows)
  obtain ys where 1: "mentions (insertOrSkip r d) = mentions d @ ys"
    using insertOrSkip_mentions by blast
  obtain zs where "mentions (fold insertOrSkip rows (insertOrSkip r d)) =
      mentions (insertOrSkip r d) @ zs"
    using Cons.IH by blast
  with 1 show ?case by simp
qed

lemma fold_insertOrSkip_distinct:
  "list_all fitsColumns rows \<Longrightarrow> distinct (platformRefs d) \<Longrightarrow>
   distinct (platformRefs (fold insertOrSkip rows d))"
  by (induction rows arbitrary: d) (simp_all add: insertOrSkip_refs)

lemma fold_insertOrSkip_set:
  "list_all fitsColumns rows \<Longrightarrow>
   set (platformRefs (fold insertOrSkip rows d)) =
   set (platformRefs d) \<union> set (map socialMediaPlatformRef rows)"
  by (induction rows arbitrary: d) (auto simp add: insertOrSkip_refs simp del: set_map)

lemma lastPerRef_subset: "set (lastPerRef rs) \<subseteq> set rs"
  by (induction rs) auto

lemma lastPerRef_fits: "list_all fitsColumns rs \<Longrightarrow> list_all fitsColumns (lastPerRef rs)"
  using lastPerRef_subset [of rs] by (auto simp: list_all_iff)

lemma lastPerRef_refs:
  "set (map socialMediaPlatformRef (lastPerRef rs)) = set (map socialMediaPlatformRef rs)"
  by (induction rs) auto

lemma filter_absent_union:
  "set (map g (filter (\<lambda>r. g r \<notin> A) rows)) \<union> A = set (map g rows) \<union> A"
  by auto

lemma toRow_refs:
  "map socialMediaPlatformRef (map toRow ms) = map (\<lambda>v. orEmpty (v_socialMediaPlatformRef v)) ms"
  by (simp add: toRow_def)

lemma platformRefs_seq [simp]: "platformRefs (d\<lparr>mentions_id_seq := n\<rparr>) = platformRefs d"
  by (simp add: platformRefs_def)

lemma createMentions_error:
  "createMentions ms d = Inl e \<Longrightarrow>
   e = SqlSyntaxError \<and> ms = [] \<or> e = ValueTooLong 255 \<or> e = ValueTooLong 50"
  by (auto simp: createMentions_def Let_def split: if_splits sum.splits dest: fitRows_error)

lemma createMentions_ok:
  assumes "ms \<noteq> []" "list_all fitsColumns (map toRow ms)"
  shows "\<exists>d'. createMentions ms d = Inr d' \<and>
     (distinct (platformRefs d) \<longrightarrow> distinct (platformRefs d')) \<and>
     set (platformRefs d') =
       set (platformRefs d) \<union> set (map (\<lambda>v. orEmpty (v_socialMediaPlatformRef v)) ms) \<and>
     (\<exists>ys. mentions d' = mentions d @ ys)"
proof -
  let ?sel = "filter (\<lambda>r. socialMediaPlatformRef r \<notin> set (platformRefs d)) (map toRow ms)"
  let ?d' = "(fold insertOrSkip (lastPerRef ?sel) d)
               \<lparr>mentions_id_seq := mentions_id_seq d + int (length ?sel)\<rparr>"
  have fs: "list_all fitsColumns ?sel" using assms(2) by (auto simp: list_all_iff)
  have fl: "list_all fitsColumns (lastPerRef ?sel)" by (rule lastPerRef_fits [OF fs])
  have c: "createMentions ms d = Inr ?d'"
    using assms(1) by (simp add: createMentions_def Let_def fitRows_fits [OF fs])
  have "set (platformRefs ?d') =
          set (map socialMediaPlatformRef (lastPerRef ?sel)) \<union> set (platformRefs d)"
    by (simp only: platformRefs_seq fold_insertOrSkip_set [OF fl] Un_commute)
  also have "\<dots> = set (map socialMediaPlatformRef ?sel) \<union> set (platformRefs d)"
    by (simp only: lastPerRef_refs)
  also have "\<dots> = set (map socialMediaPlatformRef (map toRow ms)) \<union> set (platformRefs d)"
    by (rule filter_absent_union)
  finally have s: "set (platformRefs ?d') =
      set (platformRefs d) \<union> set (map (\<lambda>v. orEmpty (v_socialMediaPlatformRef v)) ms)"
    by (simp only: toRow_refs Un_commute)
  have di: "distinct (platformRefs d) \<longrightarrow> distinct (platformRefs ?d')"
    by (simp add: fold_insertOrSkip_distinct [OF fl])
  have m: "\<exists>ys. mentions ?d' = mentions d @ ys"
    using fold_insertOrSkip_mentions [of "lastPerRef ?sel" d] by simp
  from c s di m show ?thesis by blast
qed

lemma createMentions_present:
  assumes "ms \<noteq> []"
    "set (map (\<lambda>v. orEmpty (v_socialMediaPlatformRef v)) ms) \<subseteq>
       set (platformRefs d)"
  shows "createMentions ms d = Inr d"
proof -
  have "filter (\<lambda>r. socialMediaPlatformRef r \<notin> set (platformRefs d))
          (map toRow ms) = []"
    using assms(2) by (auto simp: filter_empty_conv toRow_def)
  then show ?thesis using assms(1) by (simp add: createMentions_def Let_def)
qed

lemma ingestComments_error:
  "ingestComments taskId comments d = Inl e \<Longrightarrow> e = ValueTooLong 255 \<or> e = ValueTooLong 50"
  by (auto simp: ingestComments_def Let_def split: if_splits dest: createMentions_error)

lemma ingestRepeatedly_error:
  "ingestRepeatedly taskIds comments d = Inl e \<Longrightarrow> e = ValueTooLong 255 \<or> e = ValueTooLong 50"
  by (induction taskIds arbitrary: d) (auto split: sum.splits dest: ingestComments_error)

lemma ingestComments_ok:
  assumes "\<forall>c \<in> set comments.
             length (orEmpty (commentId c)) \<le> 255 \<and> length (orEmpty (apiPostId c)) \<le> 255 \<and>
             length (orEmpty (comment_platform c)) \<le> 50"
  shows "\<exists>d'. ingestComments taskId comments d = Inr d' \<and>
     (distinct (platformRefs d) \<longrightarrow>
        distinct (platformRefs d')) \<and>
     set (platformRefs d') =
       set (platformRefs d) \<union> commentRefs comments \<and>
     (\<exists>ys. mentions d' = mentions d @ ys)"
proof (cases "comments = []")
  case True
  then show ?thesis by (simp add: ingestComments_def commentRefs_def)
next
  case False
  then have ne: "transformCommentsToMentions comments taskId \<noteq> []"
    by (simp add: transformCommentsToMentions_def)
  have m: "map (\<lambda>v. orEmpty (v_socialMediaPlatformRef v))
             (transformCommentsToMentions comments taskId) =
           map (\<lambda>c. orEmpty (commentId c)) comments"
    by (simp add: transformCommentsToMentions_def comp_def)
  have f: "list_all fitsColumns (map toRow (transformCommentsToMentions comments taskId))"
    using assms
    by (simp add: list_all_iff transformCommentsToMentions_def toRow_def fitsColumns_def)
  from createMentions_ok [OF ne f, of d] False ne show ?thesis
    by (simp add: ingestComments_def Let_def commentRefs_def m)
qed

lemma ingestComments_present:
  assumes "commentRefs comments \<subseteq> set (platformRefs d)"
  shows "ingestComments taskId comments d = Inr d"
proof (cases "comments = []")
  case True
  then show ?thesis by (simp add: ingestComments_def)
next
  case False
  then have ne: "transformCommentsToMentions comments taskId \<noteq> []"
    by (simp add: transformCommentsToMentions_def)
  have m: "map (\<lambda>v. orEmpty (v_socialMediaPlatformRef v))
             (transformCommentsToMentions comments taskId) =
           map (\<lambda>c. orEmpty (commentId c)) comments"
    by (simp add: transformCommentsToMentions_def comp_def)
  have "createMentions (transformCommentsToMentions comments taskId) d = Inr d"
    using assms by (intro createMentions_present [OF ne]) (simp add: m commentRefs_def)
  with False ne show ?thesis by (simp add: ingestComments_def Let_def)
qed

lemma ingestRepeatedly_present:
  assumes "commentRefs comments \<subseteq> set (platformRefs d)"
  shows "ingestRepeatedly taskIds comments d = Inr d"
  using assms by (induction taskIds) (simp_all add: ingestComments_present)

lemma distinct_count_one:
  "distinct (map f xs) \<Longrightarrow> y \<in> set (map f xs) \<Longrightarrow> length (filter (\<lambda>x. f x = y) xs) = 1"
proof (induction xs)
  case Nil
  then show ?case by simp
next
  case (Cons a xs)
  show ?case
  proof (cases "f a = y")
    case True
    with Cons.prems have "filter (\<lambda>x. f x = y) xs = []"
      by (auto simp: filter_empty_conv image_iff)
    with True show ?thesis by simp
  next
    case False
    with Cons show ?thesis by simp
  qed
qed

text \<open>
  Claim C6, as the code has it. Ingesting the same list of comments once for each of
  the given fetch tasks surfaces no duplicate-key error: the one error it can end in is
  that of a value too long for its column, \<open>VARCHAR(255)\<close> for \<open>commentId\<close> and
  \<open>apiPostId\<close> and \<open>VARCHAR(50)\<close> for \<open>platform\<close>. On a table that satisfies its
  unique index, and for comments whose \<open>commentId\<close> and \<open>apiPostId\<close> have at most 255
  characters and whose \<open>platform\<close> has at most 50, ingesting the list once for each of
  \<open>K \<ge> 1\<close> fetch tasks never fails, leaves the platform refs of the table distinct,
  these being the ones that were there and the ones of the comments, leaves exactly one
  row for the platform ref of every comment of the list, leaves the rows that were
  there as they were, at the head of the table, and leaves the store as the first
  ingestion left it: the later ones insert nothing.
\<close>

theorem ingestion_is_idempotent:
  "(case ingestRepeatedly taskIds comments d of
      Inl e \<Rightarrow> e = ValueTooLong 255 \<or> e = ValueTooLong 50
    | Inr d' \<Rightarrow> True) \<and>
   (distinct (platformRefs d) \<and> taskIds \<noteq> [] \<and>
    (\<forall>c \<in> set comments.
       length (orEmpty (commentId c)) \<le> 255 \<and> length (orEmpty (apiPostId c)) \<le> 255 \<and>
       length (orEmpty (comment_platform c)) \<le> 50) \<longrightarrow>
    (case ingestRepeatedly taskIds comments d of
       Inl e \<Rightarrow> False
     | Inr d' \<Rightarrow>
         distinct (map socialMediaPlatformRef (mentions d')) \<and>
         set (map socialMediaPlatformRef (mentions d')) =
           set (map socialMediaPlatformRef (mentions d)) \<union>
           set (map (\<lambda>c. orEmpty (commentId c)) comments) \<and>
         (\<forall>c \<in> set comments.
            length (filter (\<lambda>m. socialMediaPlatformRef m = orEmpty (commentId c))
                      (mentions d')) = 1) \<and>
         take (length (mentions d)) (mentions d') = mentions d \<and>
         ingestComments (hd taskIds) comments d = Inr d'))"
proof (intro conjI impI)
  show "case ingestRepeatedly taskIds comments d of
          Inl e \<Rightarrow> e = ValueTooLong 255 \<or> e = ValueTooLong 50
        | Inr d' \<Rightarrow> True"
    using ingestRepeatedly_error [of taskIds comments d] by (simp split: sum.splits)
next
  assume a: "distinct (platformRefs d) \<and> taskIds \<noteq> [] \<and>
    (\<forall>c \<in> set comments.
       length (orEmpty (commentId c)) \<le> 255 \<and> length (orEmpty (apiPostId c)) \<le> 255 \<and>
       length (orEmpty (comment_platform c)) \<le> 50)"
  then obtain t rest where ts: "taskIds = t # rest" by (cases taskIds) auto
  from a have w: "\<forall>c \<in> set comments.
       length (orEmpty (commentId c)) \<le> 255 \<and> length (orEmpty (apiPostId c)) \<le> 255 \<and>
       length (orEmpty (comment_platform c)) \<le> 50" by simp
  from ingestComments_ok [OF w, of t d] obtain d' ys where
    1: "ingestComments t comments d = Inr d'" and
    2: "distinct (platformRefs d')" and
    3: "set (platformRefs d') = set (platformRefs d) \<union> commentRefs comments" and
    4: "mentions d' = mentions d @ ys"
    using a by auto
  have sub: "commentRefs comments \<subseteq> set (platformRefs d')"
    using 3 by auto
  have r: "ingestRepeatedly taskIds comments d = Inr d'"
    by (simp add: ts 1 ingestRepeatedly_present [OF sub])
  have "\<forall>c \<in> set comments.
          length (filter (\<lambda>m. socialMediaPlatformRef m = orEmpty (commentId c)) (mentions d')) = 1"
  proof
    fix c assume "c \<in> set comments"
    then have "orEmpty (commentId c) \<in> set (platformRefs d')"
      using sub by (auto simp: commentRefs_def)
    from distinct_count_one [OF 2 [unfolded platformRefs_def] this [unfolded platformRefs_def]] show
      "length (filter (\<lambda>m. socialMediaPlatformRef m = orEmpty (commentId c)) (mentions d')) = 1" .
  qed
  with r 1 2 3 4 ts show "case ingestRepeatedly taskIds comments d of
       Inl e \<Rightarrow> False
     | Inr d' \<Rightarrow>
         distinct (map socialMediaPlatformRef (mentions d')) \<and>
         set (map socialMediaPlatformRef (mentions d')) =
           set (map socialMediaPlatformRef (mentions d)) \<union>
           set (map (\<lambda>c. orEmpty (commentId c)) comments) \<and>
         (\<forall>c \<in> set comments.
            length (filter (\<lambda>m. socialMediaPlatformRef m = orEmpty (commentId c))
                      (mentions d')) = 1) \<and>
         take (length (mentions d)) (mentions d') = mentions d \<and>
         ingestComments (hd taskIds) comments d = Inr d'"
    by (simp add: platformRefs_def commentRefs_def del: set_map)
qed

theorem ingestion_is_idempotent_witness:
  "(let c = \<lparr>commentId = Some ''c1'', comment_text = Some ''hi'',
             comment_platform = Some ''x'', apiPostId = Some ''p1''\<rparr>
    in distinct (platformRefs emptyDb) \<and> [7, 8] \<noteq> ([] :: int list) \<and>
       (\<forall>c \<in> set [c, c].
          length (orEmpty (commentId c)) \<le> 255 \<and> length (orEmpty (apiPostId c)) \<le> 255 \<and>
          length (orEmpty (comment_platform c)) \<le> 50) \<and>
       (case ingestRepeatedly [7, 8] [c, c] emptyDb of
          Inl e \<Rightarrow> False
        | Inr d' \<Rightarrow>
            map socialMediaPlatformRef (mentions d') = [''c1''] \<and>
            map mention_id (mentions d') = [1] \<and> mentions_id_seq d' = 3))"
  using ingestion_is_idempotent
    [where d = emptyDb and taskIds = "[7, 8]"
       and comments =
        "[\<lparr>commentId = Some ''c1'', comment_text = Some ''hi'',
           comment_platform = Some ''x'', apiPostId = Some ''p1''\<rparr>,
          \<lparr>commentId = Some ''c1'', comment_text = Some ''hi'',
           comment_platform = Some ''x'', apiPostId = Some ''p1''\<rparr>]"]
  by (simp add: Let_def ingestComments_def createMentions_def transformCommentsToMentions_def
      toRow_def orEmpty_def insertOrSkip_def Mention_create_def emptyDb_def platformRefs_def
      fitRow_def fitColumn_def)

text \<open>
  The claim as the specification words it holds for every list of comments. A comment
  whose \<open>commentId\<close> has 256 characters is not stored: the statement ends in the error
  of a value too long for \<open>VARCHAR(255)\<close> and leaves no row for it. Likewise for an
  \<open>apiPostId\<close> of 256 characters and for a \<open>platform\<close> of 51.
\<close>

theorem ingestion_value_too_long_counterexample:
  "ingestRepeatedly [1]
     [\<lparr>commentId = Some (replicate 256 CHR ''a''), comment_text = Some ''hi'',
       comment_platform = Some ''bluesky'', apiPostId = Some ''p1''\<rparr>] emptyDb =
   Inl (ValueTooLong 255) \<and>
   ingestRepeatedly [1]
     [\<lparr>commentId = Some ''c1'', comment_text = Some ''hi'',
       comment_platform = Some ''bluesky'', apiPostId = Some (replicate 256 CHR ''p'')\<rparr>]
     emptyDb =
   Inl (ValueTooLong 255) \<and>
   ingestRepeatedly [1]
     [\<lparr>commentId = Some ''c1'', comment_text = Some ''hi'',
       comment_platform = Some (replicate 51 CHR ''b''), apiPostId = Some ''p1''\<rparr>]
     emptyDb =
   Inl (ValueTooLong 50)"
  by (simp add: Let_def ingestComments_def createMentions_def transformCommentsToMentions_def
      toRow_def orEmpty_def emptyDb_def platformRefs_def fitRow_def fitColumn_def)

section \<open>Properties of the fetch-and-reconcile step\<close>

lemma postsToFetch_subset: "set (postsToFetch existing posts) \<subseteq> set posts"
  by (auto simp: postsToFetch_def in_set_enumerate_eq)

lemma postsToFetch_excludes_ids:
  assumes "PostIdOnly (post_id p) \<in> set existing"
  shows "p \<notin> set (postsToFetch existing posts)"
  using assms by (auto simp: postsToFetch_def)

lemma fetchAndSyncMentions_nothing_to_fetch:
  assumes "postsToFetch (findFreshlyFetchedPostIds now d) posts = []"
  shows "fetchAndSyncMentions now user posts findAllComments d = Inr d"
  using assms by (simp add: fetchAndSyncMentions_def Let_def)

text \<open>
  Claim C7 at the input where the code departs from it. The store holds one
  \<open>FETCH_COMMENTS\<close> task, created one minute ago for the post \<open>p1\<close> and still in
  flight, so that its \<open>data.posts\<close> is the list of post objects
  \<open>fetchAndSyncMentions\<close> stored. \<open>findAllPosts\<close> returns \<open>p1\<close> again. The
  filter compares the id \<open>p1\<close> with a post object, keeps the post, and a second task
  is created and processed for \<open>p1\<close>.
\<close>

theorem in_flight_posts_are_fetched_again:
  "(let p1 = \<lparr>post_id = ''p1'', postIds = []\<rparr>;
        user = \<lparr>user_id = Some 1, email = Some ''a@b.c''\<rparr>;
        inFlight = \<lparr>task_id = 1, code = FETCH_COMMENTS,
                     task_data = emptyData\<lparr>d_posts := Some [PostObject p1],
                                            d_reqUser := Some user\<rparr>,
                     startedAt = Some 540000, finishedAt = None, createdBy = Some ''a@b.c'',
                     createdAt = 540000\<rparr>;
        d = emptyDb\<lparr>tasks := [inFlight], tasks_id_seq := 2\<rparr>
    in findFreshlyFetchedPostIds 600000 d = [PostObject p1] \<and>
       postsToFetch (findFreshlyFetchedPostIds 600000 d) [p1] = [p1] \<and>
       (case fetchAndSyncMentions 600000 user [p1] (\<lambda>p. []) d of
          Inl e \<Rightarrow> False
        | Inr d' \<Rightarrow>
            map (\<lambda>t. (task_id t, code t, d_posts (task_data t), finishedAt t)) (tasks d') =
              [(1, FETCH_COMMENTS, Some [PostObject p1], None),
               (2, FETCH_COMMENTS, Some [PostIdOnly ''p1''], Some 600000)]))"
  by (simp add: Let_def findFreshlyFetchedPostIds_def getRecentTasksQuery_def
      SOCIAL_MEDIA_API_TASK_FETCH_COMMENTS_INTERVAL_def postsToFetch_def
      fetchAndSyncMentions_def processFetchTask_def Task_create_def Task_update_def
      violates_mentionid_idx_def violates_mentionid_content_idx_def ingestComments_def
      emptyDb_def emptyData_def enumerate_eq_zip)

section \<open>Properties of the reply pipeline\<close>




lemma replyKeys_append: "replyKeys (xs @ ys) = replyKeys xs @ replyKeys ys"
  by (simp add: replyKeys_def)

lemma replyKeys_filter_distinct:
  "distinct (replyKeys ts) \<Longrightarrow> distinct (replyKeys (filter P ts))"
proof (induction ts)
  case Nil
  then show ?case by (simp add: replyKeys_def)
next
  case (Cons t ts)
  have sub: "set (replyKeys (filter P ts)) \<subseteq> set (replyKeys ts)"
    by (auto simp: replyKeys_def)
  from Cons show ?case using sub
    by (auto simp: replyKeys_def split: if_splits)
qed

lemma deleteStale_index:
  "replyIndexHolds d \<Longrightarrow> replyIndexHolds (deleteStaleReplyTasks now i d)"
  by (simp add: replyIndexHolds_def deleteStaleReplyTasks_def replyKeys_filter_distinct)

lemma deleteStale_ids:
  "taskIdsDrawn d \<Longrightarrow> taskIdsDrawn (deleteStaleReplyTasks now i d)"
  by (simp add: taskIdsDrawn_def deleteStaleReplyTasks_def list_all_iff)

lemma deleteStale_other:
  "mentions (deleteStaleReplyTasks now i d) = mentions d"
  "audits (deleteStaleReplyTasks now i d) = audits d"
  "tasks_id_seq (deleteStaleReplyTasks now i d) = tasks_id_seq d"
  "mentions_id_seq (deleteStaleReplyTasks now i d) = mentions_id_seq d"
  by (simp_all add: deleteStaleReplyTasks_def)

lemma violates_iff:
  "violates_mentionid_idx (tasks d) REPLY_MENTION (dat\<lparr>d_mentionId := Some i\<rparr>) \<longleftrightarrow>
     replyTasksFor i d \<noteq> []"
  by (auto simp: violates_mentionid_idx_def replyTasksFor_def list_ex_iff filter_empty_conv)

lemma violates_iff_keys:
  "violates_mentionid_idx ts REPLY_MENTION dat \<longleftrightarrow>
     d_mentionId dat \<noteq> None \<and> d_mentionId dat \<in> set (replyKeys ts)"
  by (force simp: violates_mentionid_idx_def replyKeys_def list_ex_iff)

lemma Task_create_ignored:
  "Task_create now REPLY_MENTION_IGNORED s f by dat d =
     (Inr \<lparr>task_id = tasks_id_seq d, code = REPLY_MENTION_IGNORED, task_data = dat,
           startedAt = s, finishedAt = f, createdBy = by, createdAt = now\<rparr>,
      d\<lparr>tasks := tasks d @ [\<lparr>task_id = tasks_id_seq d, code = REPLY_MENTION_IGNORED,
                task_data = dat, startedAt = s, finishedAt = f, createdBy = by,
                createdAt = now\<rparr>],
        tasks_id_seq := tasks_id_seq d + 1\<rparr>)"
  by (simp add: Task_create_def violates_mentionid_idx_def violates_mentionid_content_idx_def
      Let_def)

lemma recordIgnored_eq:
  "recordIgnored now i c user err n d =
     \<lparr>thrown = Some err,
      store = d\<lparr>tasks := tasks d @ [\<lparr>task_id = tasks_id_seq d, code = REPLY_MENTION_IGNORED,
                task_data = emptyData\<lparr>d_mentionId := Some i, d_content := Some c,
                        d_reqUser := Some user, d_error := Some err\<rparr>,
                startedAt = Some now, finishedAt = Some now, createdBy = email user,
                createdAt = now\<rparr>],
            tasks_id_seq := tasks_id_seq d + 1\<rparr>,
      replyCalls = n\<rparr>"
  by (simp add: recordIgnored_def Task_create_ignored)

lemma replyIndexHolds_seq [simp]:
  "replyIndexHolds (d\<lparr>tasks_id_seq := n\<rparr>) = replyIndexHolds d"
  by (simp add: replyIndexHolds_def)

lemma recordIgnored_index:
  "replyIndexHolds d \<Longrightarrow> replyIndexHolds (store (recordIgnored now i c user err n d))"
  by (simp add: recordIgnored_eq replyIndexHolds_def replyKeys_def)

lemma replyKeys_Task_update:
  assumes "\<forall>t \<in> set (tasks d). task_id t = i \<longrightarrow> d_mentionId (task_data t) = d_mentionId dat"
  shows "replyKeys (tasks (Task_update i fin dat d)) = replyKeys (tasks d)"
proof -
  have "replyKeys (map (\<lambda>t. if task_id t = i then t\<lparr>finishedAt := fin, task_data := dat\<rparr> else t) ts)
        = replyKeys ts"
    if "\<forall>t \<in> set ts. task_id t = i \<longrightarrow> d_mentionId (task_data t) = d_mentionId dat" for ts
    using that by (induction ts) (auto simp: replyKeys_def)
  from this [OF assms] show ?thesis by (simp add: Task_update_def)
qed

lemma replyComment_tasks:
  "tasks (snd (replyComment resp m d)) = tasks d"
  "tasks_id_seq (snd (replyComment resp m d)) = tasks_id_seq d"
  by (auto simp: replyComment_def Mention_create_def Let_def
      split: sum.splits option.splits prod.splits if_splits)

lemma processReplyTask_tasks:
  "tasks (store (processReplyTask now (\<lambda>m c. replyComment resp m) task d)) = tasks d \<or>
   (\<exists>fin res. tasks (store (processReplyTask now (\<lambda>m c. replyComment resp m) task d)) =
            tasks (Task_update (task_id task) fin ((task_data task)\<lparr>d_result := Some res\<rparr>) d))"
  unfolding processReplyTask_def
  by (auto simp: Let_def Mention_create_def updateState_def Task_update_def replyComment_tasks
      replyComment_def
      split: option.splits sum.splits prod.splits if_splits)

lemma processReplyTask_seq:
  "tasks_id_seq (store (processReplyTask now (\<lambda>m c. replyComment resp m) task d)) = tasks_id_seq d"
  unfolding processReplyTask_def
  by (auto simp: Let_def Mention_create_def updateState_def Task_update_def
      replyComment_def
      split: option.splits sum.splits prod.splits if_splits)

lemma replyTasksFor_le_1:
  assumes "replyIndexHolds d"
  shows "length (replyTasksFor j d) \<le> 1"
proof -
  have "length (filter (\<lambda>t. code t = REPLY_MENTION \<and> d_mentionId (task_data t) = Some j) ts) \<le> 1"
    if "distinct (replyKeys ts)" for ts
    using that
  proof (induction ts)
    case Nil
    then show ?case by simp
  next
    case (Cons t ts)
    show ?case
    proof (cases "code t = REPLY_MENTION \<and> d_mentionId (task_data t) = Some j")
      case True
      with Cons.prems have "Some j \<notin> set (replyKeys ts)" by (simp add: replyKeys_def)
      then have "filter (\<lambda>t. code t = REPLY_MENTION \<and> d_mentionId (task_data t) = Some j) ts = []"
        by (force simp: replyKeys_def filter_empty_conv)
      with True show ?thesis by simp
    next
      case False
      with Cons show ?thesis by (auto simp: replyKeys_def split: if_splits)
    qed
  qed
  with assms show ?thesis by (simp add: replyIndexHolds_def replyTasksFor_def)
qed

lemma inFlight_le_1:
  assumes "replyIndexHolds d"
  shows "length (inFlightReplyTasks j d) \<le> 1"
proof -
  have "length (inFlightReplyTasks j d) \<le> length (replyTasksFor j d)"
    by (simp add: inFlightReplyTasks_def)
  with replyTasksFor_le_1 [OF assms, of j] show ?thesis by simp
qed

lemma reply_index:
  assumes idx: "replyIndexHolds d" and ids: "taskIdsDrawn d"
  shows "replyIndexHolds (store (reply now (\<lambda>m c. replyComment resp m) m c user d))"
proof -
  let ?i = "mention_id m"
  let ?d0 = "deleteStaleReplyTasks now ?i d"
  let ?dat = "emptyData\<lparr>d_mentionId := Some ?i, d_content := Some c, d_reqUser := Some user\<rparr>"
  have idx0: "replyIndexHolds ?d0" using idx by (rule deleteStale_index)
  have ids0: "taskIdsDrawn ?d0" using ids by (rule deleteStale_ids)
  show ?thesis
  proof (cases "violates_mentionid_idx (tasks ?d0) REPLY_MENTION ?dat \<or>
                violates_mentionid_content_idx (tasks ?d0) REPLY_MENTION ?dat")
    case True
    then have "\<exists>err. Task_create now REPLY_MENTION (Some now) None (email user) ?dat ?d0 =
         (Inl err, ?d0\<lparr>tasks_id_seq := tasks_id_seq ?d0 + 1\<rparr>)"
      by (cases "violates_mentionid_idx (tasks ?d0) REPLY_MENTION ?dat")
        (simp_all add: Task_create_def Let_def)
    then obtain err where
      "Task_create now REPLY_MENTION (Some now) None (email user) ?dat ?d0 =
         (Inl err, ?d0\<lparr>tasks_id_seq := tasks_id_seq ?d0 + 1\<rparr>)"
      by blast
    then show ?thesis using idx0 by (simp add: reply_def Let_def recordIgnored_index)
  next
    case False
    define task where "task = \<lparr>task_id = tasks_id_seq ?d0, code = REPLY_MENTION, task_data = ?dat,
                  startedAt = Some now, finishedAt = None, createdBy = email user,
                  createdAt = now\<rparr>"
    define d1 where "d1 = ?d0\<lparr>tasks := tasks ?d0 @ [task], tasks_id_seq := tasks_id_seq ?d0 + 1\<rparr>"
    from False have nv: "\<not> violates_mentionid_idx (tasks ?d0) REPLY_MENTION ?dat" by simp
    from False have Inr:
      "Task_create now REPLY_MENTION (Some now) None (email user) ?dat ?d0 = (Inr task, d1)"
      by (simp add: Task_create_def Let_def task_def d1_def)
    note task = task_def and d1 = d1_def
    let ?d2 = "updateState ?i REPLY_ATTEMPT (audit REPLY_ATTEMPT ?i (task_id task) (email user) d1)"
    have t2: "tasks ?d2 = tasks ?d0 @ [task]" by (simp add: updateState_def audit_def d1)
    from nv have "Some ?i \<notin> set (replyKeys (tasks ?d0))"
      by (simp add: violates_iff_keys emptyData_def)
    then have k2: "distinct (replyKeys (tasks ?d2))"
      using idx0 by (simp add: t2 replyKeys_append replyIndexHolds_def)
         (simp add: replyKeys_def task emptyData_def)
    let ?r = "processReplyTask now (\<lambda>m c. replyComment resp m) task ?d2"
    have same: "\<forall>t \<in> set (tasks ?d2). task_id t = task_id task \<longrightarrow>
        d_mentionId (task_data t) = d_mentionId ((task_data task)\<lparr>d_result := Some res\<rparr>)" for res
      using ids0 unfolding t2 by (auto simp: taskIdsDrawn_def list_all_iff task)
    have kr: "distinct (replyKeys (tasks (store ?r)))"
      using processReplyTask_tasks [of now resp task ?d2] k2
      by (auto simp: replyKeys_Task_update [OF same])
    then have ir: "replyIndexHolds (store ?r)" by (simp add: replyIndexHolds_def)
    show ?thesis
      using Inr ir
      by (simp add: reply_def Let_def recordIgnored_index split: option.splits)
  qed
qed


lemma reply_on_violation:
  assumes "replyTasksFor (mention_id m) (deleteStaleReplyTasks now (mention_id m) d) \<noteq> []"
  shows "reply now svc m c user d =
           recordIgnored now (mention_id m) c user
             (UniqueViolation ''tasks_code_data_mentionid_idx'') 0
             ((deleteStaleReplyTasks now (mention_id m) d)
                \<lparr>tasks_id_seq := tasks_id_seq d + 1\<rparr>)"
proof -
  have "violates_mentionid_idx (tasks (deleteStaleReplyTasks now (mention_id m) d)) REPLY_MENTION
          (emptyData\<lparr>d_mentionId := Some (mention_id m), d_content := Some c,
                     d_reqUser := Some user\<rparr>)"
    using assms
    by (auto simp: violates_mentionid_idx_def replyTasksFor_def list_ex_iff filter_empty_conv)
  then show ?thesis by (simp add: reply_def Let_def Task_create_def deleteStale_other)
qed

text \<open>
  Claim C2. On a store that satisfies the index on \<open>(code, data->>'mentionId')\<close>,
  \<open>reply\<close> leaves a store that satisfies it, so that no mention has more than one
  \<open>REPLY_MENTION\<close> task in flight. When the insert of the task violates the index,
  because a \<open>REPLY_MENTION\<close> task of the mention survives the deletion of the stale
  ones, \<open>reply\<close> adds one \<open>REPLY_MENTION_IGNORED\<close> task with
  \<open>startedAt = finishedAt = now\<close>, changes no mention and no audit, does not make
  the reply call and throws the violation. The id of the added task is the second one
  drawn from the sequence, the rejected insert having spent the first.
\<close>

theorem reply_keeps_one_task_per_mention:
  assumes "replyIndexHolds d" "taskIdsDrawn d"
  shows "(let i = mention_id m;
              d0 = deleteStaleReplyTasks now i d;
              r = reply now (\<lambda>m c. replyComment resp m) m c user d
          in replyIndexHolds (store r) \<and>
             length (inFlightReplyTasks j (store r)) \<le> 1 \<and>
             (replyTasksFor i d0 \<noteq> [] \<longrightarrow>
                thrown r = Some (UniqueViolation ''tasks_code_data_mentionid_idx'') \<and>
                replyCalls r = 0 \<and>
                mentions (store r) = mentions d \<and>
                audits (store r) = audits d \<and>
                tasks (store r) =
                  tasks d0 @
                  [\<lparr>task_id = tasks_id_seq d + 1, code = REPLY_MENTION_IGNORED,
                    task_data = emptyData\<lparr>d_mentionId := Some i, d_content := Some c,
                      d_reqUser := Some user,
                      d_error := Some (UniqueViolation ''tasks_code_data_mentionid_idx'')\<rparr>,
                    startedAt = Some now, finishedAt = Some now, createdBy = email user,
                    createdAt = now\<rparr>]))"
proof -
  note idx = reply_index [OF assms, of now resp m c user]
  show ?thesis
    using idx inFlight_le_1 [OF idx, of j]
    by (simp add: Let_def reply_on_violation recordIgnored_eq deleteStale_other)
qed

theorem reply_keeps_one_task_per_mention_witness:
  "(let parent = \<lparr>mention_id = 1, content = ''hi'', socialMediaPlatformRef = ''c1'',
                  socialMediaAPIPostRef = ''p1'', platform = ''bluesky'',
                  mention_type = COMMENT, mention_state = Some REPLY_ATTEMPT,
                  userId = None, mentionId = None, mention_data = NoPayload\<rparr>;
        user = \<lparr>user_id = Some 1, email = Some ''a@b.c''\<rparr>;
        first = \<lparr>task_id = 1, code = REPLY_MENTION,
                  task_data = emptyData\<lparr>d_mentionId := Some 1, d_content := Some ''hello'',
                                         d_reqUser := Some user\<rparr>,
                  startedAt = Some 1000, finishedAt = None, createdBy = Some ''a@b.c'',
                  createdAt = 1000\<rparr>;
        d = \<lparr>mentions = [parent], tasks = [first], audits = [], mentions_id_seq = 2,
              tasks_id_seq = 2\<rparr>;
        r = reply 1050 (\<lambda>m c. replyComment (Inl (Upstream NetworkError)) m) parent ''hello''
              user d
    in replyIndexHolds d \<and> taskIdsDrawn d \<and>
       replyTasksFor 1 (deleteStaleReplyTasks 1050 1 d) \<noteq> [] \<and>
       thrown r = Some (UniqueViolation ''tasks_code_data_mentionid_idx'') \<and>
       replyCalls r = 0 \<and> mentions (store r) = [parent] \<and>
       length (inFlightReplyTasks 1 (store r)) \<le> 1 \<and>
       map (\<lambda>t. (task_id t, code t, startedAt t, finishedAt t)) (tasks (store r)) =
         [(1, REPLY_MENTION, Some 1000, None),
          (3, REPLY_MENTION_IGNORED, Some 1050, Some 1050)])"
  using reply_keeps_one_task_per_mention
    [where d = "\<lparr>mentions = [\<lparr>mention_id = 1, content = ''hi'',
                  socialMediaPlatformRef = ''c1'',
                  socialMediaAPIPostRef = ''p1'', platform = ''bluesky'',
                  mention_type = COMMENT, mention_state = Some REPLY_ATTEMPT,
                  userId = None, mentionId = None, mention_data = NoPayload\<rparr>],
          tasks = [\<lparr>task_id = 1, code = REPLY_MENTION,
                  task_data = emptyData\<lparr>d_mentionId := Some 1, d_content := Some ''hello'',
                     d_reqUser := Some \<lparr>user_id = Some 1, email = Some ''a@b.c''\<rparr>\<rparr>,
                  startedAt = Some 1000, finishedAt = None, createdBy = Some ''a@b.c'',
                  createdAt = 1000\<rparr>],
          audits = [], mentions_id_seq = 2, tasks_id_seq = 2\<rparr>"
       and m = "\<lparr>mention_id = 1, content = ''hi'', socialMediaPlatformRef = ''c1'',
                  socialMediaAPIPostRef = ''p1'', platform = ''bluesky'',
                  mention_type = COMMENT, mention_state = Some REPLY_ATTEMPT,
                  userId = None, mentionId = None, mention_data = NoPayload\<rparr>"
       and now = 1050 and j = 1 and resp = "Inl (Upstream NetworkError)"
       and c = "''hello''" and user = "\<lparr>user_id = Some 1, email = Some ''a@b.c''\<rparr>"]
  by (simp add: Let_def replyIndexHolds_def replyKeys_def taskIdsDrawn_def replyTasksFor_def
      inFlightReplyTasks_def deleteStaleReplyTasks_def emptyData_def
      SOCIAL_MEDIA_API_TASK_REPLY_INTERVAL_def)

section \<open>Properties of the entry point\<close>

lemma typeof_parseIntOfString: "typeof (parseIntOfString v) = ''number''"
  by (cases v) (simp_all add: parseInt10_def Let_def split: prod.splits option.splits)

text \<open>What the four checks accept.\<close>

lemma validateReply_accepts_iff:
  "validateReply givenId c user = None \<longleftrightarrow>
     truthy givenId \<and>
     (\<exists>s. c = JsString s \<and> s \<noteq> [] \<and> length s \<le> 10000) \<and>
     (\<exists>u i e. user = Some u \<and> user_id u = Some i \<and> i \<noteq> 0 \<and> email u = Some e \<and> e \<noteq> [])"
  by (cases c; cases user)
     (auto simp: validateReply_def typeof_parseIntOfString split: option.splits)

lemma replyToMention_rejected:
  assumes "validateReply givenId c user = Some e"
  shows "replyToMention now svc givenId c user d = \<lparr>thrown = Some e, store = d, replyCalls = 0\<rparr>"
  using assms by (simp add: replyToMention_def)

text \<open>
  Claim C9 at the input where the code departs from it. The route hands the id segment
  of the path over as a string; for \<open>1abc\<close>, which is not a positive integer, the check
  \<open>typeof parseInt(String(mentionId), 10) !== 'number'\<close> is false, as it is for every
  value, the validation passes, \<open>parseInt\<close> reads 1, and the reply goes out for
  mention 1: a \<open>REPLY_MENTION\<close> task is created and finished, a child mention is
  inserted and the parent becomes \<open>REPLIED\<close>.
\<close>

theorem malformed_mention_id_is_accepted:
  "(let parent = \<lparr>mention_id = 1, content = ''hi'', socialMediaPlatformRef = ''c1'',
                  socialMediaAPIPostRef = ''p1'', platform = ''bluesky'',
                  mention_type = COMMENT, mention_state = None,
                  userId = None, mentionId = None, mention_data = NoPayload\<rparr>;
        user = \<lparr>user_id = Some 1, email = Some ''a@b.c''\<rparr>;
        d = \<lparr>mentions = [parent], tasks = [], audits = [], mentions_id_seq = 2,
              tasks_id_seq = 1\<rparr>;
        body = \<lparr>status = Some ''success'', success = False,
                 platforms = [(''bluesky'', \<lparr>rd_comment = ''hello'', rd_commentId = ''r1''\<rparr>)]\<rparr>;
        r = replyToMention 2000 (\<lambda>m c. replyComment (Inr body) m) (JsString ''1abc'')
              (JsString ''hello'') (Some user) d
    in validateReply (JsString ''1abc'') (JsString ''hello'') (Some user) = None \<and>
       validateReply (JsString ''-5'') (JsString ''hello'') (Some user) = None \<and>
       parseIntOfString (JsString ''1abc'') = JsNumber 1 \<and>
       thrown r = None \<and> replyCalls r = 1 \<and>
       map (\<lambda>m. (mention_id m, mention_type m, mentionId m, mention_state m))
           (mentions (store r)) =
         [(1, COMMENT, None, Some REPLIED), (2, REPLY, Some 1, None)] \<and>
       map (\<lambda>t. (task_id t, code t, d_mentionId (task_data t), finishedAt t))
           (tasks (store r)) =
         [(1, REPLY_MENTION, Some 1, Some 2000)])"
  by (simp add: Let_def validateReply_def parseInt10_def isWhiteSpace_def digitValue_def
      replyToMention_def reply_def processReplyTask_def replyComment_def findByPk_def
      processReplyResponseToMention_def Mention_create_def platformRefs_def updateState_def
      Task_update_def Task_create_def violates_mentionid_idx_def
      violates_mentionid_content_idx_def deleteStaleReplyTasks_def audit_def emptyData_def
      fitRow_def fitColumn_def)

theorem malformed_mention_id_is_accepted_witness:
  "validateReply (JsString ''1abc'') (JsString ''hello'')
     (Some \<lparr>user_id = Some 1, email = Some ''a@b.c''\<rparr>) = None \<and>
   parseIntOfString (JsString ''1abc'') = JsNumber 1"
  using malformed_mention_id_is_accepted by (simp add: Let_def)

end
